theory Spec2Isabelle
  imports Main
begin

section \<open>Go library functions used by the service\<close>

text \<open>
  Go strings are byte sequences: \<^typ>\<open>string\<close>.  Go's \<open>int\<close> is modelled by \<^typ>\<open>int\<close>;
  the only arithmetic in the code is a loop counter that runs from 2 up to the agency size,
  one allocation per step, so it cannot reach the 64-bit limit before memory is exhausted.
\<close>

subsection \<open>\<open>strconv.Itoa\<close> and the \<open>%d\<close> verb\<close>

definition digit_char :: "nat \<Rightarrow> char" where
  "digit_char d = char_of (48 + d)"

function utoa :: "nat \<Rightarrow> string" where
  "utoa n = (if n < 10 then [digit_char n] else utoa (n div 10) @ [digit_char (n mod 10)])"
  by pat_completeness auto
termination
  by (relation "measure id") auto

declare utoa.simps [simp del]

definition Itoa :: "int \<Rightarrow> string" where
  "Itoa i = (if i < 0 then CHR ''-'' # utoa (nat (- i)) else utoa (nat i))"

subsection \<open>\<open>net.JoinHostPort\<close> (Go 1.8)\<close>

definition JoinHostPort :: "string \<Rightarrow> string \<Rightarrow> string" where
  "JoinHostPort host port =
     (if CHR '':'' \<in> set host \<or> CHR ''%'' \<in> set host
      then ''['' @ host @ '']:'' @ port
      else host @ '':'' @ port)"

subsection \<open>\<open>filepath.Join\<close> and \<open>filepath.Clean\<close> (Unix)\<close>

text \<open>
  \<open>Clean\<close> is modelled on path elements: the path is cut at every separator, the elements
  are processed from left to right against the output built so far, and the output is put
  together again.  An empty element and \<open>.\<close> are dropped; \<open>..\<close> removes the last real
  element of the output, is dropped at the root, and is kept otherwise.
\<close>

fun split_path :: "string \<Rightarrow> string list" where
  "split_path [] = [[]]"
| "split_path (c # cs) =
     (if c = CHR ''/'' then [] # split_path cs
      else (case split_path cs of [] \<Rightarrow> [[c]] | e # es \<Rightarrow> (c # e) # es))"

definition clean_step :: "bool \<Rightarrow> string list \<Rightarrow> string \<Rightarrow> string list" where
  "clean_step rooted out e =
     (if e = [] \<or> e = ''.'' then out
      else if e = ''..'' then
        (if out \<noteq> [] \<and> last out \<noteq> ''..'' then butlast out
         else if rooted then out
         else out @ [''..''])
      else out @ [e])"

fun join_elems :: "string list \<Rightarrow> string" where
  "join_elems [] = []"
| "join_elems [e] = e"
| "join_elems (e # es) = e @ ''/'' @ join_elems es"

definition Clean :: "string \<Rightarrow> string" where
  "Clean path =
     (if path = [] then ''.''
      else let rooted = (hd path = CHR ''/'');
               out = foldl (clean_step rooted) [] (split_path path);
               res = (if rooted then ''/'' else []) @ join_elems out
           in if res = [] then ''.'' else res)"

text \<open>\<open>filepath.Join\<close> of two elements: empty elements are ignored, the rest is cleaned.\<close>

definition filepath_Join :: "string \<Rightarrow> string \<Rightarrow> string" where
  "filepath_Join a b =
     (if a \<noteq> [] then Clean (a @ ''/'' @ b)
      else if b \<noteq> [] then Clean b
      else [])"

section \<open>Data model\<close>

datatype os_error = ENOENT | EACCES | ENOSPC

datatype error = Error string | PathError os_error

text \<open>
  Modelled from the spec: the declarations of \<open>Peer\<close> and \<open>peers\<close> are not part of the
  sources at hand.  A peer has an id, a data directory and a network address and port;
  the peer list carries the peers in join order and the agency size.  The code reads
  \<open>p.ID\<close>, \<open>p.DataDir\<close>, \<open>peers.Peers\<close> and \<open>peers.AgencySize\<close>.
\<close>

record Peer =
  ID :: string
  DataDir :: string
  Address :: string
  Port :: int

record peers =
  Peers :: "Peer list"
  AgencySize :: int

text \<open>\<open>SetupConfigFile\<close> is the JSON structure stored in the setup file of this process.\<close>

record SetupConfigFile =
  Version :: string
  ID :: string
  Peers :: peers
  StartLocalSlaves :: bool

definition SetupConfigVersion :: string where
  "SetupConfigVersion = ''0.2.1''"

definition setupFileName :: string where
  "setupFileName = ''setup.json''"

text \<open>
  The fields of \<open>Config\<close> and \<open>Service\<close> that the two source files read or write.
  \<open>Service\<close> embeds \<open>Config\<close>; a logger is known by the id it was created for.
\<close>

datatype logger = RootLogger | IDLogger string

record Config =
  ID :: string
  DataDir :: string
  OwnAddress :: string
  MasterAddress :: string
  AgencySize :: int
  StartLocalSlaves :: bool

record Service = Config +
  announcePort :: int
  myPeers :: peers
  log :: logger

definition mustCreateIDLogger :: "string \<Rightarrow> logger" where
  "mustCreateIDLogger i = IDLogger i"

section \<open>Effects\<close>

text \<open>
  What the code does to the outside is recorded in order: log calls with their format
  string and arguments, directory creation, the start of the HTTP server and of the
  runner, the goroutine that runs a slave service, and the wait on the wait group.
\<close>

datatype level = INFO | WARNING | ERROR

datatype arg = AInt int | AStr string | AErr error

datatype event =
    Logf logger level string "arg list"
  | MkdirAll string nat
  | GoRun logger Config bool
  | StartHTTPServer
  | StartRunning
  | WaitGroupWait

text \<open>
  File contents.  The byte level of \<open>encoding/json\<close> (lexing, escapes, white space)
  belongs to Go's library and is not modelled: the bytes of a file are kept as the JSON
  document they denote, or as raw text when they denote none.
\<close>

datatype json =
    JNull
  | JBool bool
  | JNumber int
  | JNonInteger string
  | JString string
  | JArray "json list"
  | JObject "(string \<times> json) list"

datatype bytes = JSONText json | Garbage string

text \<open>
  A file has contents and may or may not be opened for reading by this process.
\<close>

record node =
  content :: bytes
  accessible :: bool

type_synonym filesystem = "string \<Rightarrow> node option"

record World =
  fs :: filesystem
  trace :: "event list"
  uid_calls :: nat

definition emit :: "event \<Rightarrow> World \<Rightarrow> World" where
  "emit e w = w\<lparr>trace := trace w @ [e]\<rparr>"

text \<open>
  \<open>createUniqueID\<close> and \<open>NewService\<close> are declared outside the sources at hand.  Their
  outcomes are inputs: the result of the k-th call of \<open>createUniqueID\<close>, and the error,
  if any, of \<open>NewService\<close> for the peer at a given index of the list.

  Whether the operating system lets the process write a file is an input as well, since
  it depends on what the model does not hold (the directory tree, ownership, free space):
  \<open>open_for_write\<close> is the error, if any, of opening a path for writing with creation
  and truncation; \<open>write_all\<close> is the error, if any, of writing the data to the open
  file, together with the bytes that are left in the file then.
\<close>

record Env =
  createUniqueID :: "nat \<Rightarrow> error + string"
  NewService :: "nat \<Rightarrow> logger \<Rightarrow> Config \<Rightarrow> bool \<Rightarrow> error option"
  open_for_write :: "World \<Rightarrow> string \<Rightarrow> os_error option"
  write_all :: "World \<Rightarrow> string \<Rightarrow> bytes \<Rightarrow> (os_error \<times> bytes) option"

section \<open>Local slaves (\<open>service/local_slaves.go\<close>)\<close>

definition masterAddr_of :: "'a Service_scheme \<Rightarrow> string" where
  "masterAddr_of s =
     (let masterAddr = OwnAddress s;
          masterAddr = (if masterAddr = [] then ''127.0.0.1'' else masterAddr)
      in JoinHostPort masterAddr (Itoa (announcePort s)))"

definition slave_config :: "Service \<Rightarrow> string \<Rightarrow> Peer \<Rightarrow> Config" where
  "slave_config s masterAddr p =
     (let config = Config.truncate s;
          config = config\<lparr>Config.ID := Peer.ID p\<rparr>;
          config = config\<lparr>Config.DataDir := Peer.DataDir p\<rparr>;
          config = config\<lparr>MasterAddress := masterAddr\<rparr>;
          config = config\<lparr>Config.StartLocalSlaves := False\<rparr>
      in config)"

text \<open>The body of \<open>for index, p := range peers\<close>; the mode \<open>0755\<close> is 493.\<close>

fun startLocalSlaves_loop ::
  "Env \<Rightarrow> Service \<Rightarrow> string \<Rightarrow> nat \<Rightarrow> Peer list \<Rightarrow> World \<Rightarrow> World" where
  "startLocalSlaves_loop env s masterAddr index [] w = w"
| "startLocalSlaves_loop env s masterAddr index (p # ps) w =
     (if Peer.ID p = Config.ID s then startLocalSlaves_loop env s masterAddr (Suc index) ps w
      else
        let config = slave_config s masterAddr p;
            w = emit (MkdirAll (Config.DataDir config) 493) w;
            lg = mustCreateIDLogger (Config.ID config)
        in case NewService env index lg config True of
             Some err \<Rightarrow>
               startLocalSlaves_loop env s masterAddr (Suc index) ps
                 (emit (Logf (log s) ERROR ''Failed to create local slave service %d: %#v''
                          [AInt (int index), AErr err]) w)
           | None \<Rightarrow>
               startLocalSlaves_loop env s masterAddr (Suc index) ps
                 (emit (GoRun lg config True) w))"

text \<open>\<open>startLocalSlaves\<close> starts additional services for local slaves based on the given peers.\<close>

definition startLocalSlaves :: "Env \<Rightarrow> Service \<Rightarrow> Peer list \<Rightarrow> World \<Rightarrow> Service \<times> World" where
  "startLocalSlaves env s ps w =
     (let s = s\<lparr>log := mustCreateIDLogger (Config.ID s)\<rparr>;
          w = emit (Logf (log s) INFO ''Starting %d local slaves...'' [AInt (int (length ps) - 1)]) w
      in (s, startLocalSlaves_loop env s (masterAddr_of s) 0 ps w))"

text \<open>The loop \<open>for index := 2; index <= s.AgencySize; index++\<close> that allocates the peers.\<close>

function createPeers_loop ::
  "Env \<Rightarrow> Service \<Rightarrow> int \<Rightarrow> Peer list \<Rightarrow> World \<Rightarrow> Peer list \<times> World" where
  "createPeers_loop env s index ps w =
     (if index \<le> Config.AgencySize s then
        (let k = uid_calls w;
             w = w\<lparr>uid_calls := Suc k\<rparr>
         in case createUniqueID env k of
              Inl err \<Rightarrow>
                createPeers_loop env s (index + 1) ps
                  (emit (Logf (log s) ERROR ''Failed to create unique ID: %#v'' [AErr err]) w)
            | Inr uid \<Rightarrow>
                let p = \<lparr>Peer.ID = uid,
                         Peer.DataDir = filepath_Join (Config.DataDir s) (''local-slave-'' @ Itoa (index - 1)),
                         Address = [], Port = 0\<rparr>
                in createPeers_loop env s (index + 1) (ps @ [p]) w)
      else (ps, w))"
  by pat_completeness auto
termination
  by (relation "measure (\<lambda>(env, s, index, ps, w). nat (Config.AgencySize s + 1 - index))") auto

declare createPeers_loop.simps [simp del]

text \<open>
  \<open>createAndStartLocalSlaves\<close> creates additional peers for local slaves and starts
  services for them.
\<close>

definition createAndStartLocalSlaves :: "Env \<Rightarrow> Service \<Rightarrow> World \<Rightarrow> Service \<times> World" where
  "createAndStartLocalSlaves env s w =
     (case createPeers_loop env s 2 [] w of
        (ps, w) \<Rightarrow> startLocalSlaves env s ps w)"

section \<open>The JSON form of the setup record\<close>

subsection \<open>Strings\<close>

text \<open>
  A JSON string is Unicode text.  \<open>json.Marshal\<close> goes through a Go string rune by rune
  with \<open>utf8.DecodeRuneInString\<close> and writes the replacement character U+FFFD for every
  byte at which no rune can be decoded; all other runes come back from \<open>json.Unmarshal\<close>
  as the bytes they were.  A \<open>JString\<close> holds the string as \<open>json.Unmarshal\<close> returns it.

  \<open>rune_len\<close> is the width of the rune at the head of a string, and 0 where the decoder
  reports an error: a byte that starts no rune, a sequence that is cut short, a
  continuation byte out of range, an overlong form, a surrogate, a value above U+10FFFF.
\<close>

definition byte :: "char \<Rightarrow> nat" where
  "byte c = of_char c"

fun tail_ok :: "nat \<Rightarrow> nat \<Rightarrow> nat \<Rightarrow> string \<Rightarrow> bool" where
  "tail_ok lo hi 0 bs = True"
| "tail_ok lo hi (Suc n) [] = False"
| "tail_ok lo hi (Suc n) (b # bs) = (lo \<le> byte b \<and> byte b \<le> hi \<and> tail_ok 128 191 n bs)"

fun rune_len :: "string \<Rightarrow> nat" where
  "rune_len [] = 0"
| "rune_len (b # bs) =
     (let x = byte b in
      if x < 128 then 1
      else if x < 194 then 0
      else if x < 224 then (if tail_ok 128 191 1 bs then 2 else 0)
      else if x < 240 then
        (if tail_ok (if x = 224 then 160 else 128) (if x = 237 then 159 else 191) 2 bs
         then 3 else 0)
      else if x < 245 then
        (if tail_ok (if x = 240 then 144 else 128) (if x = 244 then 143 else 191) 3 bs
         then 4 else 0)
      else 0)"

definition replacement_char :: string where
  "replacement_char = [CHR 0xEF, CHR 0xBF, CHR 0xBD]"

text \<open>
  \<open>coerce_from k\<close> copies the \<open>k\<close> bytes that are left of the rune it is in, and then
  goes on rune by rune.
\<close>

fun coerce_from :: "nat \<Rightarrow> string \<Rightarrow> string" where
  "coerce_from k [] = []"
| "coerce_from (Suc k) (b # bs) = b # coerce_from k bs"
| "coerce_from 0 (b # bs) =
     (case rune_len (b # bs) of
        0 \<Rightarrow> replacement_char @ coerce_from 0 bs
      | Suc m \<Rightarrow> b # coerce_from m bs)"

definition coerce_utf8 :: "string \<Rightarrow> string" where
  "coerce_utf8 s = coerce_from 0 s"

subsection \<open>Records\<close>

text \<open>
  \<open>json.Marshal\<close> writes one member per exported field, under the name given in the
  field's tag (the field's own name when there is none), in declaration order; a field
  tagged \<open>omitempty\<close> is left out when it holds its zero value.
\<close>

definition marshal_Peer :: "Peer \<Rightarrow> json" where
  "marshal_Peer p =
     JObject [(''ID'', JString (coerce_utf8 (Peer.ID p))),
              (''DataDir'', JString (coerce_utf8 (Peer.DataDir p))),
              (''Address'', JString (coerce_utf8 (Address p))), (''Port'', JNumber (Port p))]"

definition marshal_peers :: "peers \<Rightarrow> json" where
  "marshal_peers ps =
     JObject [(''Peers'', JArray (map marshal_Peer (peers.Peers ps))),
              (''AgencySize'', JNumber (peers.AgencySize ps))]"

definition marshal_SetupConfigFile :: "SetupConfigFile \<Rightarrow> json" where
  "marshal_SetupConfigFile cfg =
     JObject ([(''version'', JString (coerce_utf8 (Version cfg))),
               (''id'', JString (coerce_utf8 (SetupConfigFile.ID cfg))),
               (''peers'', marshal_peers (SetupConfigFile.Peers cfg))]
              @ (if SetupConfigFile.StartLocalSlaves cfg
                 then [(''start-local-slaves'', JBool True)] else []))"

definition json_Marshal :: "SetupConfigFile \<Rightarrow> error + bytes" where
  "json_Marshal cfg = Inr (JSONText (marshal_SetupConfigFile cfg))"

text \<open>
  \<open>json.Unmarshal\<close> decodes into an existing value.  A member is matched to a field by
  its name, ignoring the case of ASCII letters; members that match no field are skipped;
  \<open>null\<close> leaves a field as it is (a slice becomes empty); a value of the wrong JSON type,
  or a number that is no 64-bit integer, is an error; an array is decoded element by
  element into fresh values.
\<close>

definition to_lower :: "char \<Rightarrow> char" where
  "to_lower c = (let n = (of_char c :: nat) in if 65 \<le> n \<and> n \<le> 90 then char_of (n + 32) else c)"

definition EqualFold :: "string \<Rightarrow> string \<Rightarrow> bool" where
  "EqualFold a b = (map to_lower a = map to_lower b)"

definition type_error :: "string \<Rightarrow> error" where
  "type_error ty = Error (''json: cannot unmarshal into Go value of type '' @ ty)"

definition in_int_range :: "int \<Rightarrow> bool" where
  "in_int_range n = (- (2 ^ 63) \<le> n \<and> n < 2 ^ 63)"

fun decode_string :: "json \<Rightarrow> string \<Rightarrow> error + string" where
  "decode_string (JString x) old = Inr x"
| "decode_string JNull old = Inr old"
| "decode_string _ old = Inl (type_error ''string'')"

fun decode_bool :: "json \<Rightarrow> bool \<Rightarrow> error + bool" where
  "decode_bool (JBool x) old = Inr x"
| "decode_bool JNull old = Inr old"
| "decode_bool _ old = Inl (type_error ''bool'')"

fun decode_int :: "json \<Rightarrow> int \<Rightarrow> error + int" where
  "decode_int (JNumber x) old = (if in_int_range x then Inr x else Inl (type_error ''int''))"
| "decode_int JNull old = Inr old"
| "decode_int _ old = Inl (type_error ''int'')"

fun decode_members ::
  "('a \<Rightarrow> string \<Rightarrow> json \<Rightarrow> error + 'a) \<Rightarrow> (string \<times> json) list \<Rightarrow> 'a \<Rightarrow> error + 'a" where
  "decode_members f [] old = Inr old"
| "decode_members f ((k, v) # ms) old =
     (case f old k v of Inl err \<Rightarrow> Inl err | Inr x \<Rightarrow> decode_members f ms x)"

fun decode_elems :: "(json \<Rightarrow> error + 'a) \<Rightarrow> json list \<Rightarrow> error + 'a list" where
  "decode_elems f [] = Inr []"
| "decode_elems f (v # vs) =
     (case f v of
        Inl err \<Rightarrow> Inl err
      | Inr x \<Rightarrow> (case decode_elems f vs of Inl err \<Rightarrow> Inl err | Inr xs \<Rightarrow> Inr (x # xs)))"

definition zero_Peer :: Peer where
  "zero_Peer = \<lparr>Peer.ID = [], Peer.DataDir = [], Address = [], Port = 0\<rparr>"

definition zero_peers :: peers where
  "zero_peers = \<lparr>peers.Peers = [], peers.AgencySize = 0\<rparr>"

definition zero_SetupConfigFile :: SetupConfigFile where
  "zero_SetupConfigFile =
     \<lparr>Version = [], SetupConfigFile.ID = [], SetupConfigFile.Peers = zero_peers,
      SetupConfigFile.StartLocalSlaves = False\<rparr>"

definition decode_Peer_member :: "Peer \<Rightarrow> string \<Rightarrow> json \<Rightarrow> error + Peer" where
  "decode_Peer_member p k v =
     (if EqualFold k ''ID'' then
        (case decode_string v (Peer.ID p) of Inl err \<Rightarrow> Inl err | Inr x \<Rightarrow> Inr (p\<lparr>Peer.ID := x\<rparr>))
      else if EqualFold k ''DataDir'' then
        (case decode_string v (Peer.DataDir p) of Inl err \<Rightarrow> Inl err | Inr x \<Rightarrow> Inr (p\<lparr>Peer.DataDir := x\<rparr>))
      else if EqualFold k ''Address'' then
        (case decode_string v (Address p) of Inl err \<Rightarrow> Inl err | Inr x \<Rightarrow> Inr (p\<lparr>Address := x\<rparr>))
      else if EqualFold k ''Port'' then
        (case decode_int v (Port p) of Inl err \<Rightarrow> Inl err | Inr x \<Rightarrow> Inr (p\<lparr>Port := x\<rparr>))
      else Inr p)"

fun decode_Peer :: "json \<Rightarrow> Peer \<Rightarrow> error + Peer" where
  "decode_Peer (JObject ms) old = decode_members decode_Peer_member ms old"
| "decode_Peer JNull old = Inr old"
| "decode_Peer _ old = Inl (type_error ''Peer'')"

fun decode_Peer_list :: "json \<Rightarrow> Peer list \<Rightarrow> error + Peer list" where
  "decode_Peer_list (JArray vs) old = decode_elems (\<lambda>v. decode_Peer v zero_Peer) vs"
| "decode_Peer_list JNull old = Inr []"
| "decode_Peer_list _ old = Inl (type_error ''[]Peer'')"

definition decode_peers_member :: "peers \<Rightarrow> string \<Rightarrow> json \<Rightarrow> error + peers" where
  "decode_peers_member ps k v =
     (if EqualFold k ''Peers'' then
        (case decode_Peer_list v (peers.Peers ps) of
           Inl err \<Rightarrow> Inl err | Inr x \<Rightarrow> Inr (ps\<lparr>peers.Peers := x\<rparr>))
      else if EqualFold k ''AgencySize'' then
        (case decode_int v (peers.AgencySize ps) of
           Inl err \<Rightarrow> Inl err | Inr x \<Rightarrow> Inr (ps\<lparr>peers.AgencySize := x\<rparr>))
      else Inr ps)"

fun decode_peers :: "json \<Rightarrow> peers \<Rightarrow> error + peers" where
  "decode_peers (JObject ms) old = decode_members decode_peers_member ms old"
| "decode_peers JNull old = Inr old"
| "decode_peers _ old = Inl (type_error ''peers'')"

definition decode_SetupConfigFile_member ::
  "SetupConfigFile \<Rightarrow> string \<Rightarrow> json \<Rightarrow> error + SetupConfigFile" where
  "decode_SetupConfigFile_member cfg k v =
     (if EqualFold k ''version'' then
        (case decode_string v (Version cfg) of
           Inl err \<Rightarrow> Inl err | Inr x \<Rightarrow> Inr (cfg\<lparr>Version := x\<rparr>))
      else if EqualFold k ''id'' then
        (case decode_string v (SetupConfigFile.ID cfg) of
           Inl err \<Rightarrow> Inl err | Inr x \<Rightarrow> Inr (cfg\<lparr>SetupConfigFile.ID := x\<rparr>))
      else if EqualFold k ''peers'' then
        (case decode_peers v (SetupConfigFile.Peers cfg) of
           Inl err \<Rightarrow> Inl err | Inr x \<Rightarrow> Inr (cfg\<lparr>SetupConfigFile.Peers := x\<rparr>))
      else if EqualFold k ''start-local-slaves'' then
        (case decode_bool v (SetupConfigFile.StartLocalSlaves cfg) of
           Inl err \<Rightarrow> Inl err | Inr x \<Rightarrow> Inr (cfg\<lparr>SetupConfigFile.StartLocalSlaves := x\<rparr>))
      else Inr cfg)"

fun decode_SetupConfigFile :: "json \<Rightarrow> SetupConfigFile \<Rightarrow> error + SetupConfigFile" where
  "decode_SetupConfigFile (JObject ms) old = decode_members decode_SetupConfigFile_member ms old"
| "decode_SetupConfigFile JNull old = Inr old"
| "decode_SetupConfigFile _ old = Inl (type_error ''SetupConfigFile'')"

fun json_Unmarshal :: "bytes \<Rightarrow> SetupConfigFile \<Rightarrow> error + SetupConfigFile" where
  "json_Unmarshal (Garbage txt) old = Inl (Error ''invalid character'')"
| "json_Unmarshal (JSONText v) old = decode_SetupConfigFile v old"

section \<open>Files\<close>

definition ReadFile :: "filesystem \<Rightarrow> string \<Rightarrow> os_error + bytes" where
  "ReadFile f path =
     (case f path of
        None \<Rightarrow> Inl ENOENT
      | Some n \<Rightarrow> if accessible n then Inr (content n) else Inl EACCES)"

text \<open>
  \<open>ioutil.WriteFile\<close> opens the file itself for writing, creating it or cutting it to
  length zero, then writes the data, and returns the first error.  \<open>open_trunc\<close> is the
  first half; a file that it creates has mode \<open>0644\<close>, which lets its owner read it.
  \<open>write_data\<close> puts bytes into the open file.  The state between the two halves is on
  disk for any other process to read.
\<close>

definition open_trunc :: "Env \<Rightarrow> World \<Rightarrow> string \<Rightarrow> nat \<Rightarrow> os_error + filesystem" where
  "open_trunc env w path perm =
     (case open_for_write env w path of
        Some e \<Rightarrow> Inl e
      | None \<Rightarrow>
          Inr ((fs w)(path \<mapsto>
                 (case fs w path of
                    None \<Rightarrow> \<lparr>content = Garbage [], accessible = True\<rparr>
                  | Some n \<Rightarrow> n\<lparr>content := Garbage []\<rparr>))))"

definition write_data :: "filesystem \<Rightarrow> string \<Rightarrow> bytes \<Rightarrow> filesystem" where
  "write_data f path b = (case f path of None \<Rightarrow> f | Some n \<Rightarrow> f(path \<mapsto> n\<lparr>content := b\<rparr>))"

definition WriteFile ::
  "Env \<Rightarrow> World \<Rightarrow> string \<Rightarrow> bytes \<Rightarrow> nat \<Rightarrow> os_error option \<times> filesystem" where
  "WriteFile env w path b perm =
     (case open_trunc env w path perm of
        Inl e \<Rightarrow> (Some e, fs w)
      | Inr f1 \<Rightarrow>
          (case write_all env w path b of
             Some (e, left) \<Rightarrow> (Some e, write_data f1 path left)
           | None \<Rightarrow> (None, write_data f1 path b)))"

text \<open>The states of the disk during \<open>WriteFile\<close>, in order, the first being the one before.\<close>

definition WriteFile_states ::
  "Env \<Rightarrow> World \<Rightarrow> string \<Rightarrow> bytes \<Rightarrow> nat \<Rightarrow> filesystem list" where
  "WriteFile_states env w path b perm =
     (case open_trunc env w path perm of
        Inl e \<Rightarrow> [fs w]
      | Inr f1 \<Rightarrow> [fs w, f1, snd (WriteFile env w path b perm)])"

section \<open>Setup persistence (\<open>service/setup_config.go\<close>)\<close>

definition setup_path :: "'a Config_scheme \<Rightarrow> string" where
  "setup_path s = filepath_Join (Config.DataDir s) setupFileName"

definition current_setup :: "Service \<Rightarrow> SetupConfigFile" where
  "current_setup s =
     \<lparr>Version = SetupConfigVersion,
      SetupConfigFile.ID = Config.ID s,
      SetupConfigFile.Peers = myPeers s,
      SetupConfigFile.StartLocalSlaves = Config.StartLocalSlaves s\<rparr>"

text \<open>\<open>saveSetup\<close> saves the current peer configuration to disk; the mode \<open>0644\<close> is 420.\<close>

definition saveSetup :: "Env \<Rightarrow> Service \<Rightarrow> World \<Rightarrow> error option \<times> World" where
  "saveSetup env s w =
     (let cfg = current_setup s
      in case json_Marshal cfg of
           Inl err \<Rightarrow>
             (Some err, emit (Logf (log s) ERROR ''Cannot serialize config: %#v'' [AErr err]) w)
         | Inr b \<Rightarrow>
             (case WriteFile env w (setup_path s) b 420 of
                (Some e, f) \<Rightarrow>
                  (Some (PathError e),
                   emit (Logf (log s) ERROR ''Error writing setup: %#v'' [AErr (PathError e)])
                     (w\<lparr>fs := f\<rparr>))
              | (None, f) \<Rightarrow> (None, w\<lparr>fs := f\<rparr>)))"

text \<open>
  The states of the disk during \<open>saveSetup\<close>, in order: what a process that reads the
  disk while \<open>saveSetup\<close> runs can find there.
\<close>

definition saveSetup_states :: "Env \<Rightarrow> Service \<Rightarrow> World \<Rightarrow> filesystem list" where
  "saveSetup_states env s w =
     (case json_Marshal (current_setup s) of
        Inl err \<Rightarrow> [fs w]
      | Inr b \<Rightarrow> WriteFile_states env w (setup_path s) b 420)"

text \<open>
  \<open>relaunch\<close> tries to read a setup.json config file and relaunch when that file exists
  and is valid.  Returns true on relaunch or false to continue with a fresh start.
\<close>

definition relaunch :: "Env \<Rightarrow> Service \<Rightarrow> World \<Rightarrow> bool \<times> Service \<times> World" where
  "relaunch env s w =
     (case ReadFile (fs w) (setup_path s) of
        Inr setupContent \<Rightarrow>
          (case json_Unmarshal setupContent zero_SetupConfigFile of
             Inr cfg \<Rightarrow>
               if Version cfg = SetupConfigVersion then
                 (let s = s\<lparr>myPeers := SetupConfigFile.Peers cfg\<rparr>;
                      s = s\<lparr>Config.ID := SetupConfigFile.ID cfg\<rparr>;
                      s = s\<lparr>Config.AgencySize := peers.AgencySize (myPeers s)\<rparr>;
                      w = emit (Logf (log s) INFO ''Relaunching service with id '%s' on %s:%d...''
                                  [AStr (Config.ID s), AStr (OwnAddress s), AInt (announcePort s)]) w;
                      w = emit StartHTTPServer w;
                      (s, w) = (if SetupConfigFile.StartLocalSlaves cfg
                                then startLocalSlaves env s (peers.Peers (SetupConfigFile.Peers cfg)) w
                                else (s, w));
                      w = emit StartRunning w;
                      w = emit WaitGroupWait w
                  in (True, s, w))
               else
                 (False, s, emit (Logf (log s) WARNING ''%s is outdated. Starting fresh...''
                                    [AStr setupFileName]) w)
           | Inl err \<Rightarrow>
               (False, s, emit (Logf (log s) WARNING ''Failed to unmarshal existing %s: %#v''
                                  [AStr setupFileName, AErr err]) w))
      | Inl e \<Rightarrow> (False, s, w))"

section \<open>Waiting for a starter to go away (\<open>test/util.go\<close>)\<close>

text \<open>
  The answers of the starter are an input: \<open>version_fails k\<close> holds when the k-th call of
  \<open>c.Version\<close> (counting from 0) returns an error.  The loop of \<open>WaitUntilStarterGone\<close>
  may run forever, so its model returns an option: \<open>Some n\<close> when the loop is left after
  \<open>n\<close> calls, \<open>None\<close> when it is never left.  The pause between two calls is not modelled.
\<close>

partial_function (option) WaitUntilStarterGone_loop :: "(nat \<Rightarrow> bool) \<Rightarrow> int \<Rightarrow> nat \<Rightarrow> nat option" where
  "WaitUntilStarterGone_loop version_fails failures k =
     (let failures = (if version_fails k then failures + 1 else 0)
      in if failures > 2 then Some (Suc k)
         else WaitUntilStarterGone_loop version_fails failures (Suc k))"

definition WaitUntilStarterGone :: "(nat \<Rightarrow> bool) \<Rightarrow> nat option" where
  "WaitUntilStarterGone version_fails = WaitUntilStarterGone_loop version_fails 0 0"

section \<open>Notions used in the statements\<close>

text \<open>The configurations of the slave services that were set running, in order.\<close>

fun launched :: "event list \<Rightarrow> Config list" where
  "launched [] = []"
| "launched (GoRun lg c b # es) = c # launched es"
| "launched (e # es) = launched es"

text \<open>The peers of a list for which \<open>startLocalSlaves\<close> gets a service and runs it.\<close>

fun started_peers :: "Env \<Rightarrow> Service \<Rightarrow> string \<Rightarrow> nat \<Rightarrow> Peer list \<Rightarrow> Peer list" where
  "started_peers env s masterAddr index [] = []"
| "started_peers env s masterAddr index (p # ps) =
     (if Peer.ID p \<noteq> Config.ID s
         \<and> NewService env index (mustCreateIDLogger (Peer.ID p)) (slave_config s masterAddr p) True = None
      then p # started_peers env s masterAddr (Suc index) ps
      else started_peers env s masterAddr (Suc index) ps)"

text \<open>The warnings among the events.\<close>

fun is_warning :: "event \<Rightarrow> bool" where
  "is_warning (Logf lg WARNING f as) = True"
| "is_warning e = False"

text \<open>The number of failed calls in a row just before the k-th call.\<close>

primrec failures_before :: "(nat \<Rightarrow> bool) \<Rightarrow> nat \<Rightarrow> nat" where
  "failures_before version_fails 0 = 0"
| "failures_before version_fails (Suc k) =
     (if version_fails k then Suc (failures_before version_fails k) else 0)"

text \<open>The calls \<open>n - 3\<close>, \<open>n - 2\<close> and \<open>n - 1\<close> all failed.\<close>

definition three_failed :: "(nat \<Rightarrow> bool) \<Rightarrow> nat \<Rightarrow> bool" where
  "three_failed q n = (3 \<le> n \<and> q (n - 3) \<and> q (n - 2) \<and> q (n - 1))"

text \<open>The outcome of the k-th call of \<open>createUniqueID\<close>: whether it succeeds, and the id.\<close>

definition uid_ok :: "Env \<Rightarrow> nat \<Rightarrow> bool" where
  "uid_ok env k = (case createUniqueID env k of Inl e \<Rightarrow> False | Inr u \<Rightarrow> True)"

definition uid_at :: "Env \<Rightarrow> nat \<Rightarrow> string" where
  "uid_at env k = (case createUniqueID env k of Inl e \<Rightarrow> [] | Inr u \<Rightarrow> u)"

text \<open>The data directory of the j-th local slave, counting from 0.\<close>

definition slave_dir :: "'a Config_scheme \<Rightarrow> nat \<Rightarrow> string" where
  "slave_dir s j = filepath_Join (Config.DataDir s) (''local-slave-'' @ Itoa (int j + 1))"

text \<open>
  Path elements that \<open>Clean\<close> keeps as they are, and the shape of its output: \<open>..\<close>
  elements first, and only when the path is not rooted, then elements that are kept.
\<close>

definition real_elem :: "string \<Rightarrow> bool" where
  "real_elem e = (e \<noteq> [] \<and> e \<noteq> ''.'' \<and> e \<noteq> ''..'' \<and> CHR ''/'' \<notin> set e)"

fun clean_out :: "bool \<Rightarrow> string list \<Rightarrow> bool" where
  "clean_out rooted [] = True"
| "clean_out rooted (e # es) =
     (if e = ''..'' then \<not> rooted \<and> clean_out rooted es
      else real_elem e \<and> list_all real_elem es)"

definition rooted :: "string \<Rightarrow> bool" where
  "rooted d = (take 1 d = ''/'')"

definition cleaned :: "string \<Rightarrow> string list" where
  "cleaned d = foldl (clean_step (rooted d)) [] (split_path d)"

text \<open>A string is valid UTF-8 when a rune can be decoded at every position reached.\<close>

fun valid_from :: "nat \<Rightarrow> string \<Rightarrow> bool" where
  "valid_from k [] = True"
| "valid_from (Suc k) (b # bs) = valid_from k bs"
| "valid_from 0 (b # bs) = (case rune_len (b # bs) of 0 \<Rightarrow> False | Suc m \<Rightarrow> valid_from m bs)"

definition valid_utf8 :: "string \<Rightarrow> bool" where
  "valid_utf8 s = valid_from 0 s"

text \<open>
  A peer is well-formed when its port is a Go integer and its strings are valid UTF-8; a
  peer list is, when its agency size is a Go integer and its peers are well-formed.
\<close>

definition well_formed_Peer :: "Peer \<Rightarrow> bool" where
  "well_formed_Peer p =
     (in_int_range (Port p) \<and> valid_utf8 (Peer.ID p) \<and> valid_utf8 (Peer.DataDir p)
      \<and> valid_utf8 (Address p))"

definition well_formed_peers :: "peers \<Rightarrow> bool" where
  "well_formed_peers ps =
     (in_int_range (peers.AgencySize ps) \<and> list_all well_formed_Peer (peers.Peers ps))"

subsection \<open>Concrete inputs\<close>

definition example_peers :: peers where
  "example_peers =
     \<lparr>peers.Peers =
        [\<lparr>Peer.ID = ''me'', Peer.DataDir = ''/data'', Address = ''10.0.0.1'', Port = 8528\<rparr>,
         \<lparr>Peer.ID = ''a1'', Peer.DataDir = ''/data/local-slave-1'', Address = [], Port = 0\<rparr>],
      peers.AgencySize = 3\<rparr>"

definition example_service :: Service where
  "example_service =
     \<lparr>Config.ID = ''me'', Config.DataDir = ''/data'', OwnAddress = [], MasterAddress = [],
      Config.AgencySize = 3, Config.StartLocalSlaves = True,
      announcePort = 8528, myPeers = example_peers, log = RootLogger\<rparr>"

definition example_env :: Env where
  "example_env =
     \<lparr>createUniqueID = (\<lambda>k. Inr (''id'' @ Itoa (int k))), NewService = (\<lambda>i lg c b. None),
      open_for_write = (\<lambda>w path. None), write_all = (\<lambda>w path b. None)\<rparr>"

definition example_record :: bytes where
  "example_record = JSONText (marshal_SetupConfigFile (current_setup example_service))"

text \<open>A disk whose only file, if any, is \<open>/data/setup.json\<close>.\<close>

definition world_with :: "node option \<Rightarrow> World" where
  "world_with n =
     \<lparr>fs = (\<lambda>p. if p = ''/data/setup.json'' then n else None), trace = [], uid_calls = 0\<rparr>"

definition unreadable_record :: node where
  "unreadable_record = \<lparr>content = example_record, accessible = False\<rparr>"

definition garbage_file :: node where
  "garbage_file = \<lparr>content = Garbage ''not json'', accessible = True\<rparr>"

definition outdated_file :: node where
  "outdated_file =
     \<lparr>content = JSONText (JObject [(''version'', JString ''0.1.0''), (''id'', JString ''me'')]),
      accessible = True\<rparr>"

definition outdated_setup :: SetupConfigFile where
  "outdated_setup = zero_SetupConfigFile\<lparr>Version := ''0.1.0'', SetupConfigFile.ID := ''me''\<rparr>"

text \<open>A process that starts on the example data directory with a configuration of its own.\<close>

definition restarted_service :: Service where
  "restarted_service =
     \<lparr>Config.ID = ''fresh'', Config.DataDir = ''/data'', OwnAddress = [], MasterAddress = [],
      Config.AgencySize = 1, Config.StartLocalSlaves = False,
      announcePort = 8528, myPeers = zero_peers, log = RootLogger\<rparr>"

definition readable_record :: node where
  "readable_record = \<lparr>content = example_record, accessible = True\<rparr>"

text \<open>
  A parent with a generated id; a generator that returns the parent's id every time, and
  one that returns one other id every time; a parent with an address of its own.
\<close>

definition hex_service :: Service where
  "hex_service = example_service\<lparr>Config.ID := ''9f86d081''\<rparr>"

definition colliding_env :: Env where
  "colliding_env = example_env\<lparr>createUniqueID := (\<lambda>k. Inr ''9f86d081'')\<rparr>"

definition repeating_env :: Env where
  "repeating_env = example_env\<lparr>createUniqueID := (\<lambda>k. Inr ''2c26b46b'')\<rparr>"

definition addressed_service :: Service where
  "addressed_service = example_service\<lparr>OwnAddress := ''10.0.0.1''\<rparr>"

text \<open>A service whose id is the single byte \<open>0xFF\<close>, and the record \<open>saveSetup\<close> writes for it.\<close>

definition odd_id_service :: Service where
  "odd_id_service =
     \<lparr>Config.ID = [CHR 0xFF], Config.DataDir = ''/data'', OwnAddress = [], MasterAddress = [],
      Config.AgencySize = 1, Config.StartLocalSlaves = False,
      announcePort = 8528, myPeers = zero_peers, log = RootLogger\<rparr>"

definition odd_id_record :: bytes where
  "odd_id_record = JSONText (marshal_SetupConfigFile (current_setup odd_id_service))"

section \<open>Decimal numbers\<close>

lemma of_char_digit: "d < 10 \<Longrightarrow> of_char (digit_char d) = 48 + d"
  by (simp add: digit_char_def)

lemma digit_char_inj:
  assumes "d < 10" and "d' < 10" and "digit_char d = digit_char d'"
  shows "d = d'"
proof -
  from assms(3) have "(of_char (digit_char d) :: nat) = of_char (digit_char d')" by simp
  with assms(1,2) show ?thesis by (simp add: of_char_digit)
qed

lemma digit_char_not_special:
  assumes "d < 10"
  shows "digit_char d \<noteq> CHR ''/'' \<and> digit_char d \<noteq> CHR ''-''"
proof -
  have "(of_char (digit_char d) :: nat) \<noteq> of_char CHR ''/''"
    using assms by (simp add: of_char_digit)
  moreover have "(of_char (digit_char d) :: nat) \<noteq> of_char CHR ''-''"
    using assms by (simp add: of_char_digit)
  ultimately show ?thesis by auto
qed

lemma utoa_not_Nil: "utoa n \<noteq> []"
  by (subst utoa.simps) simp

lemma utoa_last: "last (utoa n) = digit_char (n mod 10)"
  by (subst utoa.simps) simp

lemma utoa_butlast: "butlast (utoa n) = (if n < 10 then [] else utoa (n div 10))"
  by (subst utoa.simps) (simp add: butlast_append)

lemma utoa_inj: "utoa n = utoa m \<Longrightarrow> n = m"
proof (induction n arbitrary: m rule: utoa.induct)
  case (1 n)
  from 1(2) have l: "digit_char (n mod 10) = digit_char (m mod 10)"
    using utoa_last [of n] utoa_last [of m] by simp
  have md: "n mod 10 = m mod 10" by (rule digit_char_inj [OF _ _ l]) simp_all
  from 1(2) have b: "butlast (utoa n) = butlast (utoa m)" by simp
  show ?case
  proof (cases "n < 10")
    case True
    with b have "m < 10" using utoa_not_Nil [of "m div 10"] by (auto simp: utoa_butlast split: if_splits)
    with True md show ?thesis by simp
  next
    case False
    with b have m: "\<not> m < 10" using utoa_not_Nil [of "n div 10"] by (auto simp: utoa_butlast split: if_splits)
    with False b have "utoa (n div 10) = utoa (m div 10)" by (simp add: utoa_butlast)
    from 1(1) [OF False this] have "n div 10 = m div 10" .
    with md have "n div 10 * 10 + n mod 10 = m div 10 * 10 + m mod 10" by simp
    then show ?thesis by (simp only: div_mult_mod_eq)
  qed
qed

lemma utoa_small: "n < 10 \<Longrightarrow> utoa n = [digit_char n]"
  by (subst utoa.simps) simp

lemma utoa_large: "\<not> n < 10 \<Longrightarrow> utoa n = utoa (n div 10) @ [digit_char (n mod 10)]"
  by (subst utoa.simps) simp

lemma utoa_chars: "c \<in> set (utoa n) \<Longrightarrow> c \<noteq> CHR ''/'' \<and> c \<noteq> CHR ''-''"
proof (induction n rule: utoa.induct)
  case (1 n)
  show ?case
  proof (cases "n < 10")
    case True
    from 1(2) have "c = digit_char n" unfolding utoa_small [OF True] by simp
    with digit_char_not_special [OF True] show ?thesis by simp
  next
    case False
    from 1(2) have "c \<in> set (utoa (n div 10)) \<or> c = digit_char (n mod 10)"
      unfolding utoa_large [OF False] by auto
    then show ?thesis
    proof
      assume "c \<in> set (utoa (n div 10))"
      from 1(1) [OF False this] show ?thesis .
    next
      assume "c = digit_char (n mod 10)"
      then show ?thesis using digit_char_not_special [of "n mod 10"] by simp
    qed
  qed
qed

lemma Itoa_inj: "Itoa i = Itoa j \<Longrightarrow> i = j"
proof -
  assume eq: "Itoa i = Itoa j"
  have hd_utoa: "hd (utoa n) \<noteq> CHR ''-''" for n
    using utoa_chars [of "hd (utoa n)" n] utoa_not_Nil [of n] by auto
  show ?thesis
  proof (cases "i < 0")
    case True
    note i = this
    show ?thesis
    proof (cases "j < 0")
      case True
      with i eq have "utoa (nat (- i)) = utoa (nat (- j))" by (simp add: Itoa_def)
      then have "nat (- i) = nat (- j)" by (rule utoa_inj)
      with i True show ?thesis by simp
    next
      case False
      with i eq have "CHR ''-'' # utoa (nat (- i)) = utoa (nat j)" by (simp add: Itoa_def)
      then have "hd (utoa (nat j)) = CHR ''-''" by (metis list.sel(1))
      with hd_utoa show ?thesis by blast
    qed
  next
    case False
    note i = this
    show ?thesis
    proof (cases "j < 0")
      case True
      with i eq have "utoa (nat i) = CHR ''-'' # utoa (nat (- j))" by (simp add: Itoa_def)
      then have "hd (utoa (nat i)) = CHR ''-''" by (metis list.sel(1))
      with hd_utoa show ?thesis by blast
    next
      case False
      with i eq have "utoa (nat i) = utoa (nat j)" by (simp add: Itoa_def)
      then have "nat i = nat j" by (rule utoa_inj)
      with i False show ?thesis by simp
    qed
  qed
qed

lemma Itoa_no_slash: "CHR ''/'' \<notin> set (Itoa i)"
  using utoa_chars by (auto simp: Itoa_def)

lemma local_slave_real: "real_elem (''local-slave-'' @ Itoa i)"
  using Itoa_no_slash [of i] by (simp add: real_elem_def)

section \<open>Paths\<close>

lemma real_elem_simps:
  "real_elem e \<Longrightarrow> e \<noteq> [] \<and> e \<noteq> ''.'' \<and> e \<noteq> ''..'' \<and> CHR ''/'' \<notin> set e"
  by (simp add: real_elem_def)

lemma split_path_not_Nil: "split_path p \<noteq> []"
  by (induction p) (auto split: list.splits)

lemma split_path_no_slash: "CHR ''/'' \<notin> set e \<Longrightarrow> split_path e = [e]"
  by (induction e) auto

lemma split_path_append:
  "split_path (a @ CHR ''/'' # b) = split_path a @ split_path b"
proof (induction a)
  case Nil
  show ?case by simp
next
  case (Cons c cs)
  obtain e es where s: "split_path cs = e # es"
    using split_path_not_Nil [of cs] by (cases "split_path cs") auto
  with Cons show ?case by simp
qed

lemma split_path_elems: "e \<in> set (split_path p) \<Longrightarrow> CHR ''/'' \<notin> set e"
proof (induction p arbitrary: e)
  case Nil
  then show ?case by simp
next
  case (Cons c cs)
  obtain x xs where s: "split_path cs = x # xs"
    using split_path_not_Nil [of cs] by (cases "split_path cs") auto
  show ?case
  proof (cases "c = CHR ''/''")
    case True
    with Cons show ?thesis by auto
  next
    case False
    with Cons.prems s have "e = c # x \<or> e \<in> set xs" by simp
    then show ?thesis
    proof
      assume "e = c # x"
      moreover have "CHR ''/'' \<notin> set x" using Cons.IH [of x] s by simp
      ultimately show ?thesis using False by auto
    next
      assume "e \<in> set xs"
      then show ?thesis using Cons.IH [of e] s by simp
    qed
  qed
qed

lemma join_elems_snoc:
  "join_elems (es @ [e]) = (if es = [] then e else join_elems es @ ''/'' @ e)"
  by (induction es rule: join_elems.induct) auto

lemma split_join:
  "es \<noteq> [] \<Longrightarrow> \<forall>e\<in>set es. CHR ''/'' \<notin> set e \<Longrightarrow> split_path (join_elems es) = es"
proof (induction es rule: join_elems.induct)
  case 1
  then show ?case by simp
next
  case (2 e)
  then show ?case by (simp add: split_path_no_slash)
next
  case (3 e v va)
  then have "split_path (join_elems (v # va)) = v # va" by simp
  moreover have "split_path (e @ CHR ''/'' # join_elems (v # va)) = split_path e @ split_path (join_elems (v # va))"
    by (rule split_path_append)
  moreover have "split_path e = [e]" using 3(3) by (simp add: split_path_no_slash)
  ultimately show ?case by simp
qed

lemma clean_out_elems: "clean_out r out \<Longrightarrow> e \<in> set out \<Longrightarrow> CHR ''/'' \<notin> set e"
  by (induction out) (auto simp: real_elem_def list_all_iff split: if_splits)

lemma clean_out_snoc_real: "clean_out r out \<Longrightarrow> real_elem e \<Longrightarrow> clean_out r (out @ [e])"
  by (induction out) (auto simp: real_elem_def split: if_splits)

lemma clean_out_butlast: "clean_out r out \<Longrightarrow> clean_out r (butlast out)"
  by (induction out) (auto simp: list_all_iff dest: in_set_butlastD split: if_splits)

lemma clean_out_snoc_dotdot:
  "clean_out r out \<Longrightarrow> \<not> r \<Longrightarrow> out = [] \<or> last out = ''..'' \<Longrightarrow> clean_out r (out @ [''..''])"
proof (induction out)
  case Nil
  then show ?case by simp
next
  case (Cons x xs)
  show ?case
  proof (cases "x = ''..''")
    case True
    with Cons show ?thesis by (auto split: if_splits)
  next
    case False
    with Cons.prems have "real_elem x" "list_all real_elem xs" "last (x # xs) = ''..''" by auto
    then have "real_elem ''..''"
      by (cases "xs = []") (auto simp: list_all_iff dest: last_in_set)
    then show ?thesis by (simp add: real_elem_def)
  qed
qed

lemma clean_step_clean:
  assumes "clean_out r out" and "CHR ''/'' \<notin> set e"
  shows "clean_out r (clean_step r out e)"
proof -
  consider "e = [] \<or> e = ''.''" | "e = ''..''" | "real_elem e"
    using assms(2) by (auto simp: real_elem_def)
  then show ?thesis
  proof cases
    case 1
    with assms show ?thesis by (auto simp: clean_step_def)
  next
    case 2
    with assms show ?thesis
      by (auto simp: clean_step_def clean_out_butlast clean_out_snoc_dotdot)
  next
    case 3
    with assms show ?thesis
      by (auto simp: clean_step_def real_elem_def clean_out_snoc_real)
  qed
qed

lemma foldl_clean_step_clean:
  "clean_out r acc \<Longrightarrow> \<forall>e\<in>set es. CHR ''/'' \<notin> set e \<Longrightarrow> clean_out r (foldl (clean_step r) acc es)"
  by (induction es arbitrary: acc) (simp_all add: clean_step_clean)

lemma clean_out_mid_dotdot:
  "clean_out r (acc @ ''..'' # xs) \<Longrightarrow> \<not> r \<and> (acc = [] \<or> last acc = ''..'')"
proof (induction acc)
  case Nil
  then show ?case by simp
next
  case (Cons a acc)
  show ?case
  proof (cases "a = ''..''")
    case True
    with Cons show ?thesis by (auto split: if_splits)
  next
    case False
    with Cons.prems have "list_all real_elem (acc @ ''..'' # xs)" by simp
    then have "real_elem ''..''" by (simp add: list_all_iff)
    then show ?thesis by (simp add: real_elem_def)
  qed
qed

lemma clean_out_mid_real:
  "clean_out r (acc @ x # xs) \<Longrightarrow> x \<noteq> ''..'' \<Longrightarrow> real_elem x"
  by (induction acc) (auto simp: list_all_iff split: if_splits)

lemma foldl_clean_fix:
  "clean_out r (acc @ es) \<Longrightarrow> foldl (clean_step r) acc es = acc @ es"
proof (induction es arbitrary: acc)
  case Nil
  show ?case by simp
next
  case (Cons x xs)
  have step: "clean_step r acc x = acc @ [x]"
  proof (cases "x = ''..''")
    case True
    with Cons.prems clean_out_mid_dotdot [of r acc xs] show ?thesis
      by (auto simp: clean_step_def)
  next
    case False
    with Cons.prems clean_out_mid_real [of r acc x xs] have "real_elem x" by simp
    then show ?thesis by (auto simp: clean_step_def real_elem_def)
  qed
  from Cons.prems have "clean_out r ((acc @ [x]) @ xs)" by simp
  from Cons.IH [OF this] step show ?case by simp
qed

lemma rooted_hd: "d \<noteq> [] \<Longrightarrow> (hd d = CHR ''/'') = rooted d"
  by (cases d) (simp_all add: rooted_def)

lemma cleaned_clean: "clean_out (rooted d) (cleaned d)"
  unfolding cleaned_def by (rule foldl_clean_step_clean) (auto dest: split_path_elems)

lemma clean_step_real: "real_elem e \<Longrightarrow> clean_step r out e = out @ [e]"
  by (simp add: clean_step_def real_elem_def)

lemma join_elems_snoc_not_Nil: "e \<noteq> [] \<Longrightarrow> join_elems (es @ [e]) \<noteq> []"
  by (simp add: join_elems_snoc)

lemma Join_real:
  assumes "real_elem e"
  shows "filepath_Join d e = (if rooted d then ''/'' else []) @ join_elems (cleaned d @ [e])"
proof (cases "d = []")
  case True
  from assms have e: "e \<noteq> []" "CHR ''/'' \<notin> set e" by (simp_all add: real_elem_def)
  then have "hd e \<noteq> CHR ''/''" by (cases e) auto
  with e assms True show ?thesis
    by (simp add: filepath_Join_def Clean_def split_path_no_slash clean_step_real
          cleaned_def rooted_def clean_step_def)
next
  case False
  from assms have e: "e \<noteq> []" "CHR ''/'' \<notin> set e" by (simp_all add: real_elem_def)
  have sp: "split_path (d @ CHR ''/'' # e) = split_path d @ [e]"
    by (simp add: split_path_append split_path_no_slash e)
  have hd: "(hd (d @ CHR ''/'' # e) = CHR ''/'') = rooted d"
    using False by (simp add: rooted_hd)
  have ne: "(if rooted d then ''/'' else []) @ join_elems (cleaned d @ [e]) \<noteq> []"
    using join_elems_snoc_not_Nil [OF e(1)] by simp
  have "Clean (d @ CHR ''/'' # e) = (if rooted d then ''/'' else []) @ join_elems (cleaned d @ [e])"
    unfolding Clean_def Let_def hd sp using ne
    by (simp add: clean_step_real [OF assms] cleaned_def)
  with False show ?thesis by (simp add: filepath_Join_def)
qed

lemma Join_real_inj:
  assumes "real_elem e" and "real_elem e'" and "filepath_Join d e = filepath_Join d e'"
  shows "e = e'"
  using assms(3) unfolding Join_real [OF assms(1)] Join_real [OF assms(2)]
  by (simp add: join_elems_snoc split: if_splits)

lemma cleaned_join:
  assumes "clean_out r es" and "es \<noteq> []" and "r = rooted ((if r then ''/'' else []) @ join_elems es)"
  shows "cleaned ((if r then ''/'' else []) @ join_elems es) = es"
proof -
  have sl: "\<forall>e\<in>set es. CHR ''/'' \<notin> set e" using assms(1) clean_out_elems by blast
  have sj: "split_path (join_elems es) = es" using split_join [OF assms(2) sl] .
  have fx: "foldl (clean_step r) [] es = es" using foldl_clean_fix [of r "[]" es] assms(1) by simp
  show ?thesis
  proof (cases r)
    case True
    then have "cleaned (''/'' @ join_elems es) = foldl (clean_step r) [] ([] # es)"
      using assms(3) sj by (simp add: cleaned_def)
    also have "\<dots> = es" using fx by (simp add: clean_step_def)
    finally show ?thesis using True by simp
  next
    case False
    then show ?thesis using assms(3) sj fx by (simp add: cleaned_def)
  qed
qed

lemma Join_real_neq:
  assumes "real_elem e"
  shows "filepath_Join d e \<noteq> d"
proof
  assume eq: "filepath_Join d e = d"
  let ?es = "cleaned d @ [e]"
  from eq have d: "d = (if rooted d then ''/'' else []) @ join_elems ?es"
    unfolding Join_real [OF assms] by simp
  have c: "clean_out (rooted d) ?es"
    using cleaned_clean [of d] assms by (rule clean_out_snoc_real)
  have "cleaned ((if rooted d then ''/'' else []) @ join_elems ?es) = ?es"
    by (rule cleaned_join [OF c]) (use d in simp_all)
  with d have "cleaned d = cleaned d @ [e]" by simp
  then show False by simp
qed

lemma local_slave_dirs_inj:
  "filepath_Join d (''local-slave-'' @ Itoa i) = filepath_Join d (''local-slave-'' @ Itoa j) \<Longrightarrow> i = j"
  using Join_real_inj [OF local_slave_real local_slave_real] Itoa_inj by auto

lemma local_slave_dir_neq: "filepath_Join d (''local-slave-'' @ Itoa i) \<noteq> d"
  by (rule Join_real_neq [OF local_slave_real])

section \<open>Slaves set running by the loop of \<open>startLocalSlaves\<close>\<close>

lemma launched_append: "launched (es @ es') = launched es @ launched es'"
  by (induction es rule: launched.induct) simp_all

lemma launched_emit: "launched (trace (emit e w)) = launched (trace w) @ launched [e]"
  by (simp add: emit_def launched_append)

lemma emit_frame [simp]: "fs (emit e w) = fs w" "uid_calls (emit e w) = uid_calls w"
  by (simp_all add: emit_def)

lemma startLocalSlaves_loop_frame:
  "fs (startLocalSlaves_loop env s m i ps w) = fs w \<and>
   uid_calls (startLocalSlaves_loop env s m i ps w) = uid_calls w"
  by (induction ps arbitrary: i w) (auto simp: Let_def split: option.splits)

lemma slave_config_ID: "Config.ID (slave_config s m p) = Peer.ID p"
  by (simp add: slave_config_def Let_def)

lemma startLocalSlaves_loop_launched:
  "launched (trace (startLocalSlaves_loop env s m i ps w))
     = launched (trace w) @ map (slave_config s m) (started_peers env s m i ps)"
proof (induction ps arbitrary: i w)
  case Nil
  show ?case by simp
next
  case (Cons p ps)
  show ?case
    by (cases "NewService env i (mustCreateIDLogger (Peer.ID p)) (slave_config s m p) True")
       (simp_all add: Cons.IH Let_def launched_emit slave_config_ID)
qed

lemma slave_config_log [simp]: "slave_config (s\<lparr>log := l\<rparr>) m p = slave_config s m p"
  by (simp add: slave_config_def Let_def Config.truncate_def)

lemma masterAddr_of_log [simp]: "masterAddr_of (s\<lparr>log := l\<rparr>) = masterAddr_of s"
  by (simp add: masterAddr_of_def)

lemma started_peers_log [simp]:
  "started_peers env (s\<lparr>log := l\<rparr>) m i ps = started_peers env s m i ps"
  by (induction ps arbitrary: i) simp_all

lemma startLocalSlaves_launched:
  assumes "startLocalSlaves env s ps w = (s', w')"
  shows "s' = s\<lparr>log := mustCreateIDLogger (Config.ID s)\<rparr> \<and> fs w' = fs w
         \<and> uid_calls w' = uid_calls w
         \<and> launched (trace w') = launched (trace w)
               @ map (slave_config s' (masterAddr_of s')) (started_peers env s' (masterAddr_of s') 0 ps)"
  using assms
  by (auto simp: startLocalSlaves_def Let_def startLocalSlaves_loop_frame
        startLocalSlaves_loop_launched launched_emit)

section \<open>Properties of the relaunch decision\<close>

lemma setup_path_example: "setup_path example_service = ''/data/setup.json''"
  by code_simp

lemma example_record_decodes:
  "json_Unmarshal example_record zero_SetupConfigFile = Inr (current_setup example_service)"
  by code_simp

text \<open>
  C9.  A relaunch that ends in a fresh start (result false) has changed nothing it owns:
  the service (its id, its peers, its agency size and every other field) is the one it
  started with, and the disk, the setup file included, is as it was; no unique id has
  been drawn either.
\<close>

theorem relaunch_fresh_start_changes_nothing:
  assumes "relaunch env s w = (False, s', w')"
  shows "s' = s \<and> fs w' = fs w \<and> uid_calls w' = uid_calls w"
  using assms
  by (auto simp: relaunch_def emit_def Let_def split: sum.splits if_splits prod.splits)

theorem relaunch_fresh_start_changes_nothing_witness:
  "relaunch example_env example_service (world_with None)
     = (False, example_service, world_with None)
   \<and> fs (world_with None) = fs (world_with None)
   \<and> uid_calls (world_with None) = uid_calls (world_with None)"
proof -
  have r: "relaunch example_env example_service (world_with None)
             = (False, example_service, world_with None)"
    by (simp add: relaunch_def ReadFile_def setup_path_example world_with_def)
  from relaunch_fresh_start_changes_nothing [OF r] r show ?thesis by simp
qed

text \<open>
  C10.  When the setup file is there but cannot be read, relaunch returns false and
  leaves the world as it is: no event is recorded, so no warning is logged.  That is
  what it does when the file is missing.
\<close>

theorem relaunch_unreadable_is_silent:
  assumes "fs w (setup_path s) = Some n" and "ReadFile (fs w) (setup_path s) = Inl e"
  shows "relaunch env s w = (False, s, w)
         \<and> relaunch env s (w\<lparr>fs := (fs w)(setup_path s := None)\<rparr>)
             = (False, s, w\<lparr>fs := (fs w)(setup_path s := None)\<rparr>)"
  using assms by (simp add: relaunch_def ReadFile_def)

theorem relaunch_unreadable_is_silent_witness:
  "fs (world_with (Some unreadable_record)) (setup_path example_service) = Some unreadable_record
   \<and> ReadFile (fs (world_with (Some unreadable_record))) (setup_path example_service) = Inl EACCES
   \<and> relaunch example_env example_service (world_with (Some unreadable_record))
       = (False, example_service, world_with (Some unreadable_record))"
proof -
  have a: "fs (world_with (Some unreadable_record)) (setup_path example_service)
             = Some unreadable_record"
    by (simp add: setup_path_example world_with_def)
  have b: "ReadFile (fs (world_with (Some unreadable_record))) (setup_path example_service)
             = Inl EACCES"
    unfolding ReadFile_def a by (simp add: unreadable_record_def)
  from relaunch_unreadable_is_silent [OF a b] a b show ?thesis by simp
qed

text \<open>
  C2, as amended.  Relaunch returns false in exactly four cases: the setup file is
  missing; it is there but cannot be read; it is read but cannot be unmarshalled; it is
  unmarshalled but carries another version than \<open>SetupConfigVersion\<close>.  In the last two
  cases the only thing that happens is one warning, in the first two nothing happens at
  all; the service is handed back unchanged in all four.
\<close>

theorem relaunch_fresh_start_cases:
  "(fst (relaunch env s w) = False) =
     (fs w (setup_path s) = None
      \<or> (\<exists>n. fs w (setup_path s) = Some n \<and> \<not> accessible n)
      \<or> (\<exists>n err. fs w (setup_path s) = Some n \<and> accessible n
             \<and> json_Unmarshal (content n) zero_SetupConfigFile = Inl err)
      \<or> (\<exists>n cfg. fs w (setup_path s) = Some n \<and> accessible n
             \<and> json_Unmarshal (content n) zero_SetupConfigFile = Inr cfg
             \<and> Version cfg \<noteq> SetupConfigVersion))
   \<and> (fs w (setup_path s) = None \<longrightarrow> relaunch env s w = (False, s, w))
   \<and> (\<forall>n. fs w (setup_path s) = Some n \<and> \<not> accessible n \<longrightarrow> relaunch env s w = (False, s, w))
   \<and> (\<forall>n err. fs w (setup_path s) = Some n \<and> accessible n
          \<and> json_Unmarshal (content n) zero_SetupConfigFile = Inl err \<longrightarrow>
        relaunch env s w =
          (False, s, emit (Logf (log s) WARNING ''Failed to unmarshal existing %s: %#v''
                             [AStr setupFileName, AErr err]) w))
   \<and> (\<forall>n cfg. fs w (setup_path s) = Some n \<and> accessible n
          \<and> json_Unmarshal (content n) zero_SetupConfigFile = Inr cfg
          \<and> Version cfg \<noteq> SetupConfigVersion \<longrightarrow>
        relaunch env s w =
          (False, s, emit (Logf (log s) WARNING ''%s is outdated. Starting fresh...''
                             [AStr setupFileName]) w))"
  by (auto simp: relaunch_def ReadFile_def Let_def split: sum.splits prod.splits option.splits)

theorem relaunch_fresh_start_cases_witness:
  "relaunch example_env example_service (world_with None)
     = (False, example_service, world_with None)
   \<and> relaunch example_env example_service (world_with (Some unreadable_record))
     = (False, example_service, world_with (Some unreadable_record))
   \<and> relaunch example_env example_service (world_with (Some garbage_file))
     = (False, example_service,
        emit (Logf RootLogger WARNING ''Failed to unmarshal existing %s: %#v''
                [AStr setupFileName, AErr (Error ''invalid character'')])
          (world_with (Some garbage_file)))
   \<and> relaunch example_env example_service (world_with (Some outdated_file))
     = (False, example_service,
        emit (Logf RootLogger WARNING ''%s is outdated. Starting fresh...'' [AStr setupFileName])
          (world_with (Some outdated_file)))"
proof -
  have p: "\<And>n. fs (world_with n) (setup_path example_service) = n"
    by (simp add: setup_path_example world_with_def)
  have l: "log example_service = RootLogger"
    by (simp add: example_service_def)
  have g: "json_Unmarshal (content garbage_file) zero_SetupConfigFile
             = Inl (Error ''invalid character'')"
    by (simp add: garbage_file_def)
  have o: "json_Unmarshal (content outdated_file) zero_SetupConfigFile = Inr outdated_setup"
    by code_simp
  have v: "Version outdated_setup \<noteq> SetupConfigVersion"
    by (simp add: outdated_setup_def SetupConfigVersion_def)
  have 1: "relaunch example_env example_service (world_with None)
             = (False, example_service, world_with None)"
    using relaunch_fresh_start_cases [of example_env example_service "world_with None"] p
    by simp
  have 2: "relaunch example_env example_service (world_with (Some unreadable_record))
             = (False, example_service, world_with (Some unreadable_record))"
    using relaunch_fresh_start_cases
            [of example_env example_service "world_with (Some unreadable_record)"] p
    by (simp add: unreadable_record_def)
  have 3: "relaunch example_env example_service (world_with (Some garbage_file))
     = (False, example_service,
        emit (Logf RootLogger WARNING ''Failed to unmarshal existing %s: %#v''
                [AStr setupFileName, AErr (Error ''invalid character'')])
          (world_with (Some garbage_file)))"
    using relaunch_fresh_start_cases
            [of example_env example_service "world_with (Some garbage_file)"] p g l
    by (simp add: garbage_file_def)
  have 4: "relaunch example_env example_service (world_with (Some outdated_file))
     = (False, example_service,
        emit (Logf RootLogger WARNING ''%s is outdated. Starting fresh...'' [AStr setupFileName])
          (world_with (Some outdated_file)))"
    using relaunch_fresh_start_cases
            [of example_env example_service "world_with (Some outdated_file)"] p o v l
    by (simp add: outdated_file_def)
  from 1 2 3 4 show ?thesis by simp
qed

text \<open>
  C2, as stated, fails: a setup file that exists, holds a record that unmarshals and has
  the current version, but cannot be read, gives a fresh start all the same; it is none
  of the three cases of the claim.
\<close>

theorem relaunch_fresh_start_unreadable_valid_record:
  "fst (relaunch example_env example_service (world_with (Some unreadable_record))) = False
   \<and> fs (world_with (Some unreadable_record)) (setup_path example_service)
       = Some unreadable_record
   \<and> json_Unmarshal (content unreadable_record) zero_SetupConfigFile
       = Inr (current_setup example_service)
   \<and> Version (current_setup example_service) = SetupConfigVersion"
proof -
  have a: "fs (world_with (Some unreadable_record)) (setup_path example_service)
             = Some unreadable_record"
    by (simp add: setup_path_example world_with_def)
  have b: "fst (relaunch example_env example_service (world_with (Some unreadable_record)))
             = False"
    unfolding relaunch_def ReadFile_def a by (simp add: unreadable_record_def)
  have c: "json_Unmarshal (content unreadable_record) zero_SetupConfigFile
             = Inr (current_setup example_service)"
    using example_record_decodes by (simp add: unreadable_record_def)
  from a b c show ?thesis by (simp add: current_setup_def)
qed

text \<open>
  C3.  When the setup file is read, unmarshals and has the current version, relaunch
  returns true; the service it leaves has the id and the peer list of the record, and the
  agency size of that peer list; no unique id is drawn.  When the record's flag is set,
  the slaves set running are those of \<open>startLocalSlaves\<close> on the peers of the record (the
  peers with another id than the record's for which a service can be made), each with
  the id and data directory of its peer; when it is not set, none is.
\<close>

theorem relaunch_restores_record:
  assumes "fs w (setup_path s) = Some n" and "accessible n"
    and "json_Unmarshal (content n) zero_SetupConfigFile = Inr cfg"
    and "Version cfg = SetupConfigVersion"
    and "relaunch env s w = (r, s', w')"
  shows "r = True
     \<and> Config.ID s' = SetupConfigFile.ID cfg
     \<and> myPeers s' = SetupConfigFile.Peers cfg
     \<and> Config.AgencySize s' = peers.AgencySize (SetupConfigFile.Peers cfg)
     \<and> uid_calls w' = uid_calls w
     \<and> launched (trace w') = launched (trace w) @
          (if SetupConfigFile.StartLocalSlaves cfg
           then map (slave_config s' (masterAddr_of s'))
                  (started_peers env s' (masterAddr_of s') 0
                     (peers.Peers (SetupConfigFile.Peers cfg)))
           else [])"
proof (cases "SetupConfigFile.StartLocalSlaves cfg")
  case True
  define s0 where "s0 = s\<lparr>myPeers := SetupConfigFile.Peers cfg,
    Config.ID := SetupConfigFile.ID cfg,
    Config.AgencySize := peers.AgencySize (SetupConfigFile.Peers cfg)\<rparr>"
  define w0 where "w0 = emit StartHTTPServer
    (emit (Logf (log s) INFO ''Relaunching service with id '%s' on %s:%d...''
             [AStr (SetupConfigFile.ID cfg), AStr (OwnAddress s), AInt (announcePort s)]) w)"
  obtain s1 w1 where
    sl: "startLocalSlaves env s0 (peers.Peers (SetupConfigFile.Peers cfg)) w0 = (s1, w1)"
    by (cases "startLocalSlaves env s0 (peers.Peers (SetupConfigFile.Peers cfg)) w0") auto
  from assms True sl have "r = True" "s' = s1" "w' = emit WaitGroupWait (emit StartRunning w1)"
    by (simp_all add: relaunch_def ReadFile_def Let_def s0_def w0_def)
  with startLocalSlaves_launched [OF sl] True show ?thesis
    by (simp add: launched_emit s0_def w0_def)
next
  case False
  with assms show ?thesis
    by (auto simp: relaunch_def ReadFile_def Let_def launched_emit)
qed

theorem relaunch_restores_record_witness:
  "fs (world_with (Some readable_record)) (setup_path restarted_service) = Some readable_record
   \<and> accessible readable_record
   \<and> json_Unmarshal (content readable_record) zero_SetupConfigFile
       = Inr (current_setup example_service)
   \<and> Version (current_setup example_service) = SetupConfigVersion
   \<and> fst (relaunch example_env restarted_service (world_with (Some readable_record))) = True
   \<and> Config.ID (fst (snd (relaunch example_env restarted_service
                              (world_with (Some readable_record))))) = ''me''
   \<and> myPeers (fst (snd (relaunch example_env restarted_service
                            (world_with (Some readable_record))))) = example_peers
   \<and> Config.AgencySize (fst (snd (relaunch example_env restarted_service
                                      (world_with (Some readable_record))))) = 3
   \<and> uid_calls (snd (snd (relaunch example_env restarted_service
                              (world_with (Some readable_record))))) = 0"
proof -
  have sp: "setup_path restarted_service = ''/data/setup.json''"
    by code_simp
  have a: "fs (world_with (Some readable_record)) (setup_path restarted_service)
             = Some readable_record"
    by (simp add: sp world_with_def)
  have b: "accessible readable_record"
    by (simp add: readable_record_def)
  have c: "json_Unmarshal (content readable_record) zero_SetupConfigFile
             = Inr (current_setup example_service)"
    using example_record_decodes by (simp add: readable_record_def)
  have d: "Version (current_setup example_service) = SetupConfigVersion"
    by (simp add: current_setup_def)
  have e: "relaunch example_env restarted_service (world_with (Some readable_record))
     = (fst (relaunch example_env restarted_service (world_with (Some readable_record))),
        fst (snd (relaunch example_env restarted_service (world_with (Some readable_record)))),
        snd (snd (relaunch example_env restarted_service (world_with (Some readable_record)))))"
    by simp
  from relaunch_restores_record [OF a b c d e] a b c d show ?thesis
    by (simp add: current_setup_def example_service_def example_peers_def world_with_def)
qed

section \<open>Properties of the local slaves\<close>

lemma createPeers_loop_ok:
  assumes "n = nat (Config.AgencySize s + 1 - index)"
    and "\<forall>k. uid_calls w \<le> k \<and> k < uid_calls w + n \<longrightarrow> uid_ok env k"
  shows "createPeers_loop env s index ps w =
           (ps @ map (\<lambda>j. \<lparr>Peer.ID = uid_at env (uid_calls w + j),
                            Peer.DataDir = filepath_Join (Config.DataDir s)
                                             (''local-slave-'' @ Itoa (index - 1 + int j)),
                            Address = [], Port = 0\<rparr>) [0..<n],
            w\<lparr>uid_calls := uid_calls w + n\<rparr>)"
  using assms
proof (induction n arbitrary: index ps w)
  case 0
  then have "\<not> index \<le> Config.AgencySize s" by simp
  then show ?case by (subst createPeers_loop.simps) simp
next
  case (Suc m)
  let ?c = "uid_calls w"
  from Suc.prems(1) have le: "index \<le> Config.AgencySize s"
    and m: "m = nat (Config.AgencySize s + 1 - (index + 1))" by simp_all
  from Suc.prems(2) have "uid_ok env ?c" by simp
  then obtain u where u: "createUniqueID env ?c = Inr u" and ua: "uid_at env ?c = u"
    by (auto simp: uid_ok_def uid_at_def split: sum.splits)
  let ?p = "\<lparr>Peer.ID = u, Peer.DataDir = filepath_Join (Config.DataDir s)
                 (''local-slave-'' @ Itoa (index - 1)), Address = [], Port = 0\<rparr>"
  let ?w = "w\<lparr>uid_calls := Suc ?c\<rparr>"
  have ok: "\<forall>k. uid_calls ?w \<le> k \<and> k < uid_calls ?w + m \<longrightarrow> uid_ok env k"
    using Suc.prems(2) by simp
  have step: "createPeers_loop env s index ps w = createPeers_loop env s (index + 1) (ps @ [?p]) ?w"
    using le u by (subst createPeers_loop.simps) (simp add: Let_def)
  have shift: "map (\<lambda>j. \<lparr>Peer.ID = uid_at env (?c + j),
                            Peer.DataDir = filepath_Join (Config.DataDir s)
                                             (''local-slave-'' @ Itoa (index - 1 + int j)),
                            Address = [], Port = 0\<rparr>) [0..<Suc m]
       = ?p # map (\<lambda>j. \<lparr>Peer.ID = uid_at env (Suc ?c + j),
                            Peer.DataDir = filepath_Join (Config.DataDir s)
                                             (''local-slave-'' @ Itoa (index + 1 - 1 + int j)),
                            Address = [], Port = 0\<rparr>) [0..<m]"
    by (simp add: upt_conv_Cons map_Suc_upt [symmetric] ua add.commute add.left_commute
             del: upt_Suc)
  show ?case
    unfolding step Suc.IH [OF m ok] shift by simp
qed

lemma started_peers_all:
  assumes "\<forall>i lg c. NewService env i lg c True = None"
  shows "started_peers env s m i ps = filter (\<lambda>p. Peer.ID p \<noteq> Config.ID s) ps"
  using assms by (induction ps arbitrary: i) simp_all

lemma slave_config_fields:
  "Config.ID (slave_config s m p) = Peer.ID p"
  "Config.DataDir (slave_config s m p) = Peer.DataDir p"
  "MasterAddress (slave_config s m p) = m"
  "Config.StartLocalSlaves (slave_config s m p) = False"
  by (simp_all add: slave_config_def Let_def)

lemma slave_dir_inj: "inj (slave_dir s)"
proof (rule injI)
  fix i j assume "slave_dir s i = slave_dir s j"
  then have "int i + 1 = int j + 1" unfolding slave_dir_def by (rule local_slave_dirs_inj)
  then show "i = j" by simp
qed

lemma slave_dir_neq: "slave_dir s j \<noteq> Config.DataDir s"
  unfolding slave_dir_def by (rule local_slave_dir_neq)

lemma createAndStart_launched:
  assumes ok: "list_all (uid_ok env) [uid_calls w ..< uid_calls w + nat (Config.AgencySize s - 1)]"
  shows "launched (trace (snd (createAndStartLocalSlaves env s w))) =
         launched (trace w) @
         map (slave_config s (masterAddr_of s))
           (started_peers env s (masterAddr_of s) 0
              (map (\<lambda>j. \<lparr>Peer.ID = uid_at env (uid_calls w + j), Peer.DataDir = slave_dir s j,
                             Address = [], Port = 0\<rparr>)
                 [0..<nat (Config.AgencySize s - 1)]))"
proof -
  let ?n = "nat (Config.AgencySize s - 1)"
  let ?ps = "map (\<lambda>j. \<lparr>Peer.ID = uid_at env (uid_calls w + j), Peer.DataDir = slave_dir s j,
                             Address = [], Port = 0\<rparr>) [0..<?n]"
  have n: "?n = nat (Config.AgencySize s + 1 - 2)" by simp
  have ok': "\<forall>k. uid_calls w \<le> k \<and> k < uid_calls w + ?n \<longrightarrow> uid_ok env k"
    using ok by (auto simp: list_all_iff)
  have cp: "createPeers_loop env s 2 [] w = (?ps, w\<lparr>uid_calls := uid_calls w + ?n\<rparr>)"
    unfolding createPeers_loop_ok [OF n ok'] by (simp add: slave_dir_def add.commute)
  obtain s' w' where sl: "startLocalSlaves env s ?ps (w\<lparr>uid_calls := uid_calls w + ?n\<rparr>) = (s', w')"
    by (cases "startLocalSlaves env s ?ps (w\<lparr>uid_calls := uid_calls w + ?n\<rparr>)") auto
  from startLocalSlaves_launched [OF sl] have
    "launched (trace w') = launched (trace w) @
       map (slave_config s (masterAddr_of s)) (started_peers env s (masterAddr_of s) 0 ?ps)"
    by simp
  moreover have "snd (createAndStartLocalSlaves env s w) = w'"
    by (simp add: createAndStartLocalSlaves_def cp sl)
  ultimately show ?thesis by simp
qed

text \<open>
  C5, as amended.  Let every call of \<open>createUniqueID\<close> that the loop makes succeed, let the
  ids it returns differ from each other and from the parent's id, and let every slave
  service be made.  Then \<open>createAndStartLocalSlaves\<close> sets running one slave per allocated
  id, in order: \<open>AgencySize - 1\<close> of them when the agency size is 2 or more, none when it
  is 1 or less (then no service need be made).  Slave number \<open>j\<close>, counting from 0, has the
  data directory \<open>local-slave-(j+1)\<close> under the parent's; these directories differ from each
  other and from the parent's, and the ids differ from each other and from the parent's.
\<close>

theorem local_slaves_count:
  assumes "list_all (uid_ok env) [uid_calls w ..< uid_calls w + nat (Config.AgencySize s - 1)]"
    and "distinct (map (uid_at env) [uid_calls w ..< uid_calls w + nat (Config.AgencySize s - 1)])"
    and "Config.ID s \<notin> set (map (uid_at env) [uid_calls w ..< uid_calls w + nat (Config.AgencySize s - 1)])"
    and "Config.AgencySize s \<le> 1 \<or> (\<forall>i lg c. NewService env i lg c True = None)"
  shows "\<exists>L. launched (trace (snd (createAndStartLocalSlaves env s w))) = launched (trace w) @ L
           \<and> length L = nat (Config.AgencySize s - 1)
           \<and> map Config.ID L = map (uid_at env) [uid_calls w ..< uid_calls w + nat (Config.AgencySize s - 1)]
           \<and> map Config.DataDir L = map (slave_dir s) [0 ..< nat (Config.AgencySize s - 1)]
           \<and> distinct (map Config.ID L) \<and> Config.ID s \<notin> set (map Config.ID L)
           \<and> distinct (map Config.DataDir L) \<and> Config.DataDir s \<notin> set (map Config.DataDir L)"
proof -
  let ?n = "nat (Config.AgencySize s - 1)"
  let ?c = "uid_calls w"
  let ?ps = "map (\<lambda>j. \<lparr>Peer.ID = uid_at env (?c + j), Peer.DataDir = slave_dir s j,
                             Address = [], Port = 0\<rparr>) [0..<?n]"
  let ?L = "map (slave_config s (masterAddr_of s)) ?ps"
  have "[?c ..< ?c + ?n] = map (\<lambda>j. j + ?c) [0 ..< ?n]"
    by (simp only: map_add_upt add.commute [of ?c])
  then have ids: "map Peer.ID ?ps = map (uid_at env) [?c ..< ?c + ?n]"
    by (simp add: o_def add.commute)
  have dirs: "map Peer.DataDir ?ps = map (slave_dir s) [0 ..< ?n]"
    by (simp add: o_def)
  have "\<forall>p\<in>set ?ps. Peer.ID p \<noteq> Config.ID s"
  proof
    fix p assume "p \<in> set ?ps"
    then have "Peer.ID p \<in> set (map Peer.ID ?ps)" by (simp only: set_map) (rule imageI)
    with assms(3) show "Peer.ID p \<noteq> Config.ID s" unfolding ids by auto
  qed
  then have flt: "filter (\<lambda>p. Peer.ID p \<noteq> Config.ID s) ?ps = ?ps" by (simp only: filter_True)
  have st: "started_peers env s (masterAddr_of s) 0 ?ps = ?ps"
  proof (cases "Config.AgencySize s \<le> 1")
    case True
    then show ?thesis by simp
  next
    case False
    with assms(4) have "\<forall>i lg c. NewService env i lg c True = None" by simp
    from started_peers_all [OF this] flt show ?thesis by simp
  qed
  have L: "launched (trace (snd (createAndStartLocalSlaves env s w))) = launched (trace w) @ ?L"
    unfolding createAndStart_launched [OF assms(1)] st ..
  have LI: "map Config.ID ?L = map (uid_at env) [?c ..< ?c + ?n]"
    using ids by (simp add: o_def slave_config_fields)
  have LD: "map Config.DataDir ?L = map (slave_dir s) [0 ..< ?n]"
    by (simp add: o_def slave_config_fields)
  have d1: "distinct (map (slave_dir s) [0 ..< ?n])"
    by (simp add: distinct_map slave_dir_inj [THEN inj_on_subset])
  have d2: "Config.DataDir s \<notin> set (map (slave_dir s) [0 ..< ?n])"
  proof
    assume "Config.DataDir s \<in> set (map (slave_dir s) [0 ..< ?n])"
    then obtain j where "slave_dir s j = Config.DataDir s" by auto
    with slave_dir_neq [of s j] show False by simp
  qed
  have len: "length ?L = ?n" by simp
  from L len LI LD assms(2,3) d1 d2 show ?thesis
    by (intro exI [of _ ?L]) (simp only: simp_thms)
qed

theorem local_slaves_count_witness:
  "list_all (uid_ok example_env) [0..<2]
   \<and> distinct (map (uid_at example_env) [0..<2])
   \<and> ''me'' \<notin> set (map (uid_at example_env) [0..<2])
   \<and> (\<forall>i lg c. NewService example_env i lg c True = None)
   \<and> map Config.ID (launched (trace (snd (createAndStartLocalSlaves example_env example_service
                                            (world_with None))))) = [''id0'', ''id1'']
   \<and> map Config.DataDir (launched (trace (snd (createAndStartLocalSlaves example_env
                                                 example_service (world_with None)))))
       = [''/data/local-slave-1'', ''/data/local-slave-2'']
   \<and> launched (trace (snd (createAndStartLocalSlaves example_env restarted_service
                             (world_with None)))) = []"
proof -
  let ?w = "world_with None"
  let ?r = "[uid_calls ?w ..< uid_calls ?w + nat (Config.AgencySize example_service - 1)]"
  let ?r' = "[uid_calls ?w ..< uid_calls ?w + nat (Config.AgencySize restarted_service - 1)]"
  have h1: "list_all (uid_ok example_env) ?r" by code_simp
  have h2: "distinct (map (uid_at example_env) ?r)" by code_simp
  have h3: "Config.ID example_service \<notin> set (map (uid_at example_env) ?r)" by code_simp
  have d: "\<forall>i lg c. NewService example_env i lg c True = None" by (simp add: example_env_def)
  then have h4: "Config.AgencySize example_service \<le> 1
                 \<or> (\<forall>i lg c. NewService example_env i lg c True = None)" ..
  have u: "map (uid_at example_env) ?r = [''id0'', ''id1'']" by code_simp
  have v: "map (slave_dir example_service) [0 ..< nat (Config.AgencySize example_service - 1)]
             = [''/data/local-slave-1'', ''/data/local-slave-2'']"
    by code_simp
  have e: "launched (trace ?w) = []" by (simp add: world_with_def)
  from local_slaves_count [OF h1 h2 h3 h4] obtain L where
    "launched (trace (snd (createAndStartLocalSlaves example_env example_service ?w)))
       = launched (trace ?w) @ L"
    and "map Config.ID L = map (uid_at example_env) ?r"
    and "map Config.DataDir L
           = map (slave_dir example_service) [0 ..< nat (Config.AgencySize example_service - 1)]"
    by blast
  then have 1: "map Config.ID (launched (trace (snd (createAndStartLocalSlaves example_env
                   example_service ?w)))) = [''id0'', ''id1'']"
    and 2: "map Config.DataDir (launched (trace (snd (createAndStartLocalSlaves example_env
                   example_service ?w)))) = [''/data/local-slave-1'', ''/data/local-slave-2'']"
    by (simp_all only: e u v append_Nil)
  have k1: "list_all (uid_ok example_env) ?r'" by code_simp
  have k2: "distinct (map (uid_at example_env) ?r')" by code_simp
  have k3: "Config.ID restarted_service \<notin> set (map (uid_at example_env) ?r')" by code_simp
  have "Config.AgencySize restarted_service \<le> 1" by (simp add: restarted_service_def)
  then have k4: "Config.AgencySize restarted_service \<le> 1
                 \<or> (\<forall>i lg c. NewService example_env i lg c True = None)" ..
  have z: "nat (Config.AgencySize restarted_service - 1) = 0" by (simp add: restarted_service_def)
  from local_slaves_count [OF k1 k2 k3 k4] obtain L' where
    "launched (trace (snd (createAndStartLocalSlaves example_env restarted_service ?w)))
       = launched (trace ?w) @ L'"
    and "length L' = nat (Config.AgencySize restarted_service - 1)"
    by blast
  then have 3: "launched (trace (snd (createAndStartLocalSlaves example_env restarted_service
                   ?w))) = []"
    by (simp add: e z)
  have a: "list_all (uid_ok example_env) [0..<2]" by code_simp
  have b: "distinct (map (uid_at example_env) [0..<2])" by code_simp
  have c: "''me'' \<notin> set (map (uid_at example_env) [0..<2])" by code_simp
  from a b c d 1 2 3 show ?thesis by (simp only: simp_thms)
qed

text \<open>
  C5, as stated, fails when the generator repeats an id.  With agency size 3 and every
  allocation and construction succeeding: if both ids equal the parent's id, no slave is
  set running; if both are the same other id, two slaves are set running with one id.
\<close>

theorem local_slaves_colliding_ids:
  "Config.AgencySize hex_service = 3
   \<and> Config.ID hex_service = ''9f86d081''
   \<and> createUniqueID colliding_env 0 = Inr ''9f86d081''
   \<and> createUniqueID colliding_env 1 = Inr ''9f86d081''
   \<and> launched (trace (snd (createAndStartLocalSlaves colliding_env hex_service (world_with None)))) = []
   \<and> createUniqueID repeating_env 0 = Inr ''2c26b46b''
   \<and> createUniqueID repeating_env 1 = Inr ''2c26b46b''
   \<and> map Config.ID (launched (trace (snd (createAndStartLocalSlaves repeating_env hex_service
                                            (world_with None))))) = [''2c26b46b'', ''2c26b46b'']"
proof -
  let ?w = "world_with None"
  let ?r = "[uid_calls ?w ..< uid_calls ?w + nat (Config.AgencySize hex_service - 1)]"
  have a: "Config.AgencySize hex_service = 3" "Config.ID hex_service = ''9f86d081''"
    by (simp_all add: hex_service_def example_service_def)
  have b: "createUniqueID colliding_env 0 = Inr ''9f86d081''"
          "createUniqueID colliding_env 1 = Inr ''9f86d081''"
          "createUniqueID repeating_env 0 = Inr ''2c26b46b''"
          "createUniqueID repeating_env 1 = Inr ''2c26b46b''"
    by (simp_all add: colliding_env_def repeating_env_def)
  have e: "launched (trace ?w) = []" by (simp add: world_with_def)
  have h: "list_all (uid_ok colliding_env) ?r" by code_simp
  have pc: "map (\<lambda>j. \<lparr>Peer.ID = uid_at colliding_env (uid_calls ?w + j),
                        Peer.DataDir = slave_dir hex_service j, Address = [], Port = 0\<rparr>)
              [0..<nat (Config.AgencySize hex_service - 1)]
            = [\<lparr>Peer.ID = ''9f86d081'', Peer.DataDir = ''/data/local-slave-1'',
                Address = [], Port = 0\<rparr>,
               \<lparr>Peer.ID = ''9f86d081'', Peer.DataDir = ''/data/local-slave-2'',
                Address = [], Port = 0\<rparr>]"
    by code_simp
  have c: "launched (trace (snd (createAndStartLocalSlaves colliding_env hex_service ?w))) = []"
    unfolding createAndStart_launched [OF h] pc e by (simp add: a)
  have k: "list_all (uid_ok repeating_env) ?r" by code_simp
  have pr: "map (\<lambda>j. \<lparr>Peer.ID = uid_at repeating_env (uid_calls ?w + j),
                        Peer.DataDir = slave_dir hex_service j, Address = [], Port = 0\<rparr>)
              [0..<nat (Config.AgencySize hex_service - 1)]
            = [\<lparr>Peer.ID = ''2c26b46b'', Peer.DataDir = ''/data/local-slave-1'',
                Address = [], Port = 0\<rparr>,
               \<lparr>Peer.ID = ''2c26b46b'', Peer.DataDir = ''/data/local-slave-2'',
                Address = [], Port = 0\<rparr>]"
    by code_simp
  have d: "map Config.ID (launched (trace (snd (createAndStartLocalSlaves repeating_env hex_service
             ?w)))) = [''2c26b46b'', ''2c26b46b'']"
    unfolding createAndStart_launched [OF k] pr e
    by (simp add: a repeating_env_def example_env_def slave_config_fields)
  from a b c d show ?thesis by (simp only: simp_thms)
qed

lemma digit_chars:
  "digit_char 0 = CHR ''0''" "digit_char 1 = CHR ''1''" "digit_char 2 = CHR ''2''"
  "digit_char 3 = CHR ''3''" "digit_char 4 = CHR ''4''" "digit_char 5 = CHR ''5''"
  "digit_char 6 = CHR ''6''" "digit_char 7 = CHR ''7''" "digit_char 8 = CHR ''8''"
  "digit_char 9 = CHR ''9''"
  by code_simp+

lemma Itoa_8528: "Itoa 8528 = ''8528''"
  by (simp add: Itoa_def utoa.simps digit_chars)

lemma masterAddr_of_cases:
  "masterAddr_of s =
     JoinHostPort (if OwnAddress s = [] then ''127.0.0.1'' else OwnAddress s) (Itoa (announcePort s))"
  by (simp add: masterAddr_of_def Let_def)

lemma startLocalSlaves_example:
  assumes "Config.ID s = ''me''" and "\<forall>i lg c. NewService env i lg c True = None"
  shows "launched (trace (snd (startLocalSlaves env s (peers.Peers example_peers) (world_with None))))
           = [slave_config s (masterAddr_of s)
                \<lparr>Peer.ID = ''a1'', Peer.DataDir = ''/data/local-slave-1'', Address = [], Port = 0\<rparr>]"
proof -
  obtain s' w' where sl: "startLocalSlaves env s (peers.Peers example_peers) (world_with None) = (s', w')"
    by (cases "startLocalSlaves env s (peers.Peers example_peers) (world_with None)") auto
  from startLocalSlaves_launched [OF sl] assms sl show ?thesis
    by (simp add: example_peers_def world_with_def)
qed

text \<open>
  C6.  Every slave that \<open>startLocalSlaves\<close> sets running has the same master address:
  \<open>net.JoinHostPort\<close> of a host and the parent's announce port in decimal, where the host is
  \<open>127.0.0.1\<close> when the parent's own address is the empty string and the parent's own
  address otherwise.  So with no own address it is \<open>127.0.0.1:port\<close>; with one, the bytes
  of the own address stand in it unchanged, followed by a colon and the port (and between
  brackets when \<open>JoinHostPort\<close> puts them).
\<close>

theorem slaves_master_address:
  assumes "startLocalSlaves env s ps w = (s', w')"
  shows "\<exists>L. launched (trace w') = launched (trace w) @ L
     \<and> list_all (\<lambda>c. MasterAddress c =
                        JoinHostPort (if OwnAddress s = [] then ''127.0.0.1'' else OwnAddress s)
                          (Itoa (announcePort s))) L
     \<and> (OwnAddress s = [] \<longrightarrow>
          list_all (\<lambda>c. MasterAddress c = ''127.0.0.1:'' @ Itoa (announcePort s)) L)
     \<and> (OwnAddress s \<noteq> [] \<longrightarrow>
          list_all (\<lambda>c. MasterAddress c = OwnAddress s @ '':'' @ Itoa (announcePort s)
                       \<or> MasterAddress c = ''['' @ OwnAddress s @ '']:'' @ Itoa (announcePort s)) L)"
proof -
  let ?L = "map (slave_config s' (masterAddr_of s')) (started_peers env s' (masterAddr_of s') 0 ps)"
  from startLocalSlaves_launched [OF assms] have
    s': "s' = s\<lparr>log := mustCreateIDLogger (Config.ID s)\<rparr>"
    and L: "launched (trace w') = launched (trace w) @ ?L" by simp_all
  have m: "list_all (\<lambda>c. MasterAddress c = masterAddr_of s) ?L"
    by (simp add: list_all_iff slave_config_fields s')
  have 1: "list_all (\<lambda>c. MasterAddress c =
                        JoinHostPort (if OwnAddress s = [] then ''127.0.0.1'' else OwnAddress s)
                          (Itoa (announcePort s))) ?L"
    using m by (simp only: masterAddr_of_cases)
  have 2: "list_all (\<lambda>c. MasterAddress c = ''127.0.0.1:'' @ Itoa (announcePort s)) ?L"
    if "OwnAddress s = []"
    using m that by (simp add: masterAddr_of_cases JoinHostPort_def)
  have 3: "list_all (\<lambda>c. MasterAddress c = OwnAddress s @ '':'' @ Itoa (announcePort s)
                       \<or> MasterAddress c = ''['' @ OwnAddress s @ '']:'' @ Itoa (announcePort s)) ?L"
    if "OwnAddress s \<noteq> []"
    using m that by (auto simp: masterAddr_of_cases JoinHostPort_def list_all_iff)
  from L 1 2 3 show ?thesis by blast
qed

theorem slaves_master_address_witness:
  "OwnAddress example_service = []
   \<and> map MasterAddress (launched (trace (snd (startLocalSlaves example_env example_service
                               (peers.Peers example_peers) (world_with None))))) = [''127.0.0.1:8528'']
   \<and> OwnAddress addressed_service = ''10.0.0.1''
   \<and> map MasterAddress (launched (trace (snd (startLocalSlaves example_env addressed_service
                               (peers.Peers example_peers) (world_with None))))) = [''10.0.0.1:8528'']"
proof -
  let ?w = "world_with None"
  let ?p = "\<lparr>Peer.ID = ''a1'', Peer.DataDir = ''/data/local-slave-1'', Address = [], Port = 0\<rparr>"
  have e: "launched (trace ?w) = []" by (simp add: world_with_def)
  have n: "\<forall>i lg c. NewService example_env i lg c True = None" by (simp add: example_env_def)
  have o1: "OwnAddress example_service = []" "announcePort example_service = 8528"
           "Config.ID example_service = ''me''"
    by (simp_all add: example_service_def)
  have o2: "OwnAddress addressed_service = ''10.0.0.1''" "announcePort addressed_service = 8528"
           "Config.ID addressed_service = ''me''"
    by (simp_all add: addressed_service_def example_service_def)
  let ?X = "startLocalSlaves example_env example_service (peers.Peers example_peers) ?w"
  let ?Y = "startLocalSlaves example_env addressed_service (peers.Peers example_peers) ?w"
  have x: "?X = (fst ?X, snd ?X)" and y: "?Y = (fst ?Y, snd ?Y)" by simp_all
  from slaves_master_address [OF x] e o1 have
    "list_all (\<lambda>c. MasterAddress c = ''127.0.0.1:'' @ Itoa 8528) (launched (trace (snd ?X)))"
    by auto
  with startLocalSlaves_example [OF o1(3) n] have
    1: "map MasterAddress (launched (trace (snd ?X))) = [''127.0.0.1:8528'']"
    by (simp add: Itoa_8528)
  from slaves_master_address [OF y] e o2 have
    "list_all (\<lambda>c. MasterAddress c = JoinHostPort ''10.0.0.1'' (Itoa 8528))
       (launched (trace (snd ?Y)))"
    by auto
  with startLocalSlaves_example [OF o2(3) n] have
    2: "map MasterAddress (launched (trace (snd ?Y))) = [''10.0.0.1:8528'']"
    by (simp add: Itoa_8528 JoinHostPort_def)
  from o1(1) 1 o2(1) 2 show ?thesis by (simp only: simp_thms)
qed

text \<open>
  C7.  Every slave that \<open>startLocalSlaves\<close> sets running has \<open>StartLocalSlaves\<close> false in
  its configuration, whatever the parent's flag is, and none has the parent's id: a peer
  with the id of the invoking service is passed over.  When every service can be made, the
  slaves set running are, in order, the peers of the list with another id.
\<close>

theorem slaves_start_no_slaves:
  assumes "startLocalSlaves env s ps w = (s', w')"
  shows "\<exists>L. launched (trace w') = launched (trace w) @ L
     \<and> list_all (\<lambda>c. Config.StartLocalSlaves c = False) L
     \<and> list_all (\<lambda>c. Config.ID c \<noteq> Config.ID s) L
     \<and> ((\<forall>i lg c. NewService env i lg c True = None) \<longrightarrow>
          map Config.ID L = map Peer.ID (filter (\<lambda>p. Peer.ID p \<noteq> Config.ID s) ps))"
proof -
  let ?m = "masterAddr_of s'"
  let ?L = "map (slave_config s' ?m) (started_peers env s' ?m 0 ps)"
  from startLocalSlaves_launched [OF assms] have
    s': "s' = s\<lparr>log := mustCreateIDLogger (Config.ID s)\<rparr>"
    and L: "launched (trace w') = launched (trace w) @ ?L" by simp_all
  have sub: "p \<in> set (started_peers env s' m i ps) \<Longrightarrow> Peer.ID p \<noteq> Config.ID s'" for p m i
    by (induction ps arbitrary: i) (auto split: if_splits)
  have 1: "list_all (\<lambda>c. Config.StartLocalSlaves c = False) ?L"
    by (simp add: list_all_iff slave_config_fields)
  have 2: "list_all (\<lambda>c. Config.ID c \<noteq> Config.ID s) ?L"
    using sub [of _ ?m 0] by (auto simp: list_all_iff slave_config_fields s')
  have 3: "map Config.ID ?L = map Peer.ID (filter (\<lambda>p. Peer.ID p \<noteq> Config.ID s) ps)"
    if "\<forall>i lg c. NewService env i lg c True = None"
    using started_peers_all [OF that, of s' ?m 0 ps] by (simp add: o_def slave_config_fields s')
  from L 1 2 3 show ?thesis by blast
qed

theorem slaves_start_no_slaves_witness:
  "Config.StartLocalSlaves example_service = True
   \<and> map Peer.ID (peers.Peers example_peers) = [''me'', ''a1'']
   \<and> Config.ID example_service = ''me''
   \<and> (\<forall>i lg c. NewService example_env i lg c True = None)
   \<and> map Config.ID (launched (trace (snd (startLocalSlaves example_env example_service
                          (peers.Peers example_peers) (world_with None))))) = [''a1'']
   \<and> map Config.StartLocalSlaves (launched (trace (snd (startLocalSlaves example_env
                          example_service (peers.Peers example_peers) (world_with None))))) = [False]"
proof -
  let ?w = "world_with None"
  let ?X = "startLocalSlaves example_env example_service (peers.Peers example_peers) ?w"
  have e: "launched (trace ?w) = []" by (simp add: world_with_def)
  have n: "\<forall>i lg c. NewService example_env i lg c True = None" by (simp add: example_env_def)
  have o: "Config.StartLocalSlaves example_service = True" "Config.ID example_service = ''me''"
    by (simp_all add: example_service_def)
  have p: "map Peer.ID (peers.Peers example_peers) = [''me'', ''a1'']"
    by (simp add: example_peers_def)
  have x: "?X = (fst ?X, snd ?X)" by simp
  from slaves_start_no_slaves [OF x] e n obtain L where
    L: "launched (trace (snd ?X)) = L"
    and a: "list_all (\<lambda>c. Config.StartLocalSlaves c = False) L"
    and b: "map Config.ID L = map Peer.ID (filter (\<lambda>p. Peer.ID p \<noteq> Config.ID example_service)
                                             (peers.Peers example_peers))"
    by auto
  from b have 1: "map Config.ID L = [''a1'']" by (simp add: o example_peers_def)
  then obtain c where "L = [c]" by (cases L) auto
  with a have 2: "map Config.StartLocalSlaves L = [False]" by simp
  from o p n 1 2 show ?thesis unfolding L by (simp only: simp_thms)
qed


section \<open>Saving and loading the setup record\<close>

lemma valid_coerce_from: "valid_from k s \<Longrightarrow> coerce_from k s = s"
proof (induction k s rule: coerce_from.induct)
  case (1 k)
  show ?case by simp
next
  case (2 k b bs)
  then show ?case by simp
next
  case (3 b bs)
  show ?case
  proof (cases "rune_len (b # bs)")
    case 0
    with 3(3) show ?thesis by (simp del: rune_len.simps)
  next
    case (Suc m)
    with 3(3) have "valid_from m bs" by (simp del: rune_len.simps)
    from 3(2) [OF Suc this] Suc show ?thesis by (simp del: rune_len.simps)
  qed
qed

lemma valid_coerce: "valid_utf8 s \<Longrightarrow> coerce_utf8 s = s"
  by (simp add: valid_utf8_def coerce_utf8_def valid_coerce_from)

lemma key_facts:
  "EqualFold ''ID'' ''ID''" "\<not> EqualFold ''DataDir'' ''ID''" "EqualFold ''DataDir'' ''DataDir''"
  "\<not> EqualFold ''Address'' ''ID''" "\<not> EqualFold ''Address'' ''DataDir''" "EqualFold ''Address'' ''Address''"
  "\<not> EqualFold ''Port'' ''ID''" "\<not> EqualFold ''Port'' ''DataDir''" "\<not> EqualFold ''Port'' ''Address''"
  "EqualFold ''Port'' ''Port''"
  "EqualFold ''Peers'' ''Peers''" "\<not> EqualFold ''AgencySize'' ''Peers''" "EqualFold ''AgencySize'' ''AgencySize''"
  "EqualFold ''version'' ''version''" "\<not> EqualFold ''id'' ''version''" "EqualFold ''id'' ''id''"
  "\<not> EqualFold ''peers'' ''version''" "\<not> EqualFold ''peers'' ''id''" "EqualFold ''peers'' ''peers''"
  "\<not> EqualFold ''start-local-slaves'' ''version''" "\<not> EqualFold ''start-local-slaves'' ''id''"
  "\<not> EqualFold ''start-local-slaves'' ''peers''" "EqualFold ''start-local-slaves'' ''start-local-slaves''"
  by code_simp+

lemma decode_marshal_Peer:
  "well_formed_Peer p \<Longrightarrow> decode_Peer (marshal_Peer p) zero_Peer = Inr p"
  by (simp add: marshal_Peer_def decode_Peer_member_def key_facts zero_Peer_def
        well_formed_Peer_def valid_coerce)

lemma decode_marshal_Peer_list:
  "list_all well_formed_Peer ps \<Longrightarrow>
   decode_elems (\<lambda>v. decode_Peer v zero_Peer) (map marshal_Peer ps) = Inr ps"
  by (induction ps) (simp_all add: decode_marshal_Peer)

lemma decode_marshal_peers:
  "well_formed_peers ps \<Longrightarrow> decode_peers (marshal_peers ps) zero_peers = Inr ps"
  by (simp add: marshal_peers_def decode_peers_member_def key_facts zero_peers_def
        well_formed_peers_def decode_marshal_Peer_list)

lemma decode_marshal_SetupConfigFile:
  "well_formed_peers (SetupConfigFile.Peers cfg) \<Longrightarrow> valid_utf8 (Version cfg) \<Longrightarrow>
   valid_utf8 (SetupConfigFile.ID cfg) \<Longrightarrow>
   json_Unmarshal (JSONText (marshal_SetupConfigFile cfg)) zero_SetupConfigFile = Inr cfg"
  by (simp add: marshal_SetupConfigFile_def decode_SetupConfigFile_member_def key_facts
        zero_SetupConfigFile_def decode_marshal_peers valid_coerce)

lemma valid_SetupConfigVersion: "valid_utf8 SetupConfigVersion"
  by code_simp

lemma WriteFile_then_ReadFile:
  assumes "WriteFile env w path b perm = (None, f)" and "ReadFile f path = Inr data"
  shows "data = b"
  using assms
  by (auto simp: WriteFile_def open_trunc_def write_data_def ReadFile_def
           split: option.splits if_splits sum.splits prod.splits)

lemma saveSetup_ok:
  assumes "saveSetup env s w = (None, w')"
  shows "WriteFile env w (setup_path s) (JSONText (marshal_SetupConfigFile (current_setup s))) 420
           = (None, fs w')"
  using assms
  by (auto simp: saveSetup_def json_Marshal_def Let_def emit_def split: prod.splits option.splits)

text \<open>
  C1, as amended.  Take a service whose peer list is well-formed and whose id is valid
  UTF-8.  When \<open>saveSetup\<close> succeeds and the file is then read the way \<open>relaunch\<close> reads it
  (\<open>ReadFile\<close> at the same path, \<open>json.Unmarshal\<close> into a zero record), the record that
  comes back has the current version, the service's id, its peer list and its flag.
\<close>

theorem save_then_load:
  assumes "well_formed_peers (myPeers s)" and "valid_utf8 (Config.ID s)"
    and "saveSetup env s w = (None, w')"
    and "ReadFile (fs w') (setup_path s) = Inr data"
  shows "json_Unmarshal data zero_SetupConfigFile =
           Inr \<lparr>Version = SetupConfigVersion, SetupConfigFile.ID = Config.ID s,
                SetupConfigFile.Peers = myPeers s,
                SetupConfigFile.StartLocalSlaves = Config.StartLocalSlaves s\<rparr>"
proof -
  let ?b = "JSONText (marshal_SetupConfigFile (current_setup s))"
  from WriteFile_then_ReadFile [OF saveSetup_ok [OF assms(3)] assms(4)] have d: "data = ?b" .
  have "json_Unmarshal ?b zero_SetupConfigFile = Inr (current_setup s)"
    using assms(1,2)
    by (intro decode_marshal_SetupConfigFile) (simp_all add: current_setup_def valid_SetupConfigVersion)
  with d show ?thesis by (simp add: current_setup_def)
qed

theorem save_then_load_witness:
  "well_formed_peers (myPeers example_service)
   \<and> valid_utf8 (Config.ID example_service)
   \<and> fst (saveSetup example_env example_service (world_with None)) = None
   \<and> ReadFile (fs (snd (saveSetup example_env example_service (world_with None))))
         (setup_path example_service) = Inr example_record
   \<and> json_Unmarshal example_record zero_SetupConfigFile =
         Inr \<lparr>Version = ''0.2.1'', SetupConfigFile.ID = ''me'',
              SetupConfigFile.Peers = example_peers,
              SetupConfigFile.StartLocalSlaves = True\<rparr>"
proof -
  have a: "well_formed_peers (myPeers example_service)"
    by code_simp
  have b: "valid_utf8 (Config.ID example_service)"
    by code_simp
  have c: "saveSetup example_env example_service (world_with None)
             = (None, snd (saveSetup example_env example_service (world_with None)))"
    by (simp add: saveSetup_def json_Marshal_def WriteFile_def open_trunc_def example_env_def)
  have d: "ReadFile (fs (snd (saveSetup example_env example_service (world_with None))))
             (setup_path example_service) = Inr example_record"
    by (simp add: saveSetup_def json_Marshal_def WriteFile_def open_trunc_def write_data_def
          ReadFile_def setup_path_example world_with_def example_record_def example_env_def)
  from c have e: "fst (saveSetup example_env example_service (world_with None)) = None"
    by (metis fst_conv)
  from save_then_load [OF a b c d]
  have f: "json_Unmarshal example_record zero_SetupConfigFile =
         Inr \<lparr>Version = ''0.2.1'', SetupConfigFile.ID = ''me'',
              SetupConfigFile.Peers = example_peers,
              SetupConfigFile.StartLocalSlaves = True\<rparr>"
    by (simp add: SetupConfigVersion_def example_service_def)
  from a b e d f show ?thesis by simp
qed

text \<open>
  C1, as stated, fails: an id that is not valid UTF-8 (here the single byte \<open>0xFF\<close>) is
  saved and loaded without error, and comes back as the replacement character.
\<close>

theorem save_then_load_invalid_id:
  "well_formed_peers (myPeers odd_id_service)
   \<and> Config.ID odd_id_service = [CHR 0xFF]
   \<and> fst (saveSetup example_env odd_id_service (world_with None)) = None
   \<and> ReadFile (fs (snd (saveSetup example_env odd_id_service (world_with None))))
         (setup_path odd_id_service) = Inr odd_id_record
   \<and> json_Unmarshal odd_id_record zero_SetupConfigFile =
         Inr \<lparr>Version = ''0.2.1'', SetupConfigFile.ID = [CHR 0xEF, CHR 0xBF, CHR 0xBD],
              SetupConfigFile.Peers = zero_peers, SetupConfigFile.StartLocalSlaves = False\<rparr>"
proof -
  have sp: "setup_path odd_id_service = ''/data/setup.json''"
    by code_simp
  have a: "well_formed_peers (myPeers odd_id_service)"
    by code_simp
  have b: "Config.ID odd_id_service = [CHR 0xFF]"
    by (simp add: odd_id_service_def)
  have c: "fst (saveSetup example_env odd_id_service (world_with None)) = None"
    by (simp add: saveSetup_def json_Marshal_def WriteFile_def open_trunc_def example_env_def)
  have d: "ReadFile (fs (snd (saveSetup example_env odd_id_service (world_with None))))
             (setup_path odd_id_service) = Inr odd_id_record"
    by (simp add: saveSetup_def json_Marshal_def WriteFile_def open_trunc_def write_data_def
          ReadFile_def sp world_with_def odd_id_record_def example_env_def)
  have e: "json_Unmarshal odd_id_record zero_SetupConfigFile =
         Inr \<lparr>Version = ''0.2.1'', SetupConfigFile.ID = [CHR 0xEF, CHR 0xBF, CHR 0xBD],
              SetupConfigFile.Peers = zero_peers, SetupConfigFile.StartLocalSlaves = False\<rparr>"
    by code_simp
  from a b c d e show ?thesis by simp
qed

subsection \<open>The disk while the record is saved\<close>

lemma saveSetup_fs:
  "fs (snd (saveSetup env s w)) =
     snd (WriteFile env w (setup_path s) (JSONText (marshal_SetupConfigFile (current_setup s))) 420)"
  by (simp add: saveSetup_def json_Marshal_def emit_def split: prod.splits option.splits)

text \<open>
  C4, as amended.  \<open>saveSetup\<close> writes the record in place.  When the setup file can be
  opened for writing, the disk goes through three states: the one before; one in which
  the setup file is there with no content; the one \<open>saveSetup\<close> leaves.  No path other than
  the setup file's differs between them, so there is neither a temporary file nor a rename.
\<close>

theorem saveSetup_writes_in_place:
  assumes "open_for_write env w (setup_path s) = None"
  shows "\<exists>f1. saveSetup_states env s w = [fs w, f1, fs (snd (saveSetup env s w))]
     \<and> map_option content (f1 (setup_path s)) = Some (Garbage [])
     \<and> (\<forall>p. p \<noteq> setup_path s \<longrightarrow>
            f1 p = fs w p \<and> fs (snd (saveSetup env s w)) p = fs w p)"
proof -
  let ?b = "JSONText (marshal_SetupConfigFile (current_setup s))"
  let ?f1 = "(fs w)(setup_path s \<mapsto>
               (case fs w (setup_path s) of
                  None \<Rightarrow> \<lparr>content = Garbage [], accessible = True\<rparr>
                | Some n \<Rightarrow> n\<lparr>content := Garbage []\<rparr>))"
  have ot: "open_trunc env w (setup_path s) 420 = Inr ?f1"
    using assms by (simp add: open_trunc_def)
  have 1: "saveSetup_states env s w = [fs w, ?f1, fs (snd (saveSetup env s w))]"
    by (simp add: saveSetup_states_def json_Marshal_def WriteFile_states_def ot saveSetup_fs)
  have 2: "map_option content (?f1 (setup_path s)) = Some (Garbage [])"
    by (simp split: option.splits)
  have 3: "?f1 p = fs w p \<and> fs (snd (saveSetup env s w)) p = fs w p" if "p \<noteq> setup_path s" for p
    using that
    by (auto simp: saveSetup_fs WriteFile_def ot write_data_def split: option.splits prod.splits)
  from 1 2 3 show ?thesis by blast
qed

theorem saveSetup_writes_in_place_witness:
  "open_for_write example_env (world_with (Some outdated_file)) (setup_path example_service) = None
   \<and> length (saveSetup_states example_env example_service (world_with (Some outdated_file))) = 3
   \<and> map_option content
        ((saveSetup_states example_env example_service (world_with (Some outdated_file)) ! 1)
           (setup_path example_service)) = Some (Garbage [])
   \<and> fs (snd (saveSetup example_env example_service (world_with (Some outdated_file)))) ''/tmp/x''
       = None"
proof -
  let ?w = "world_with (Some outdated_file)"
  have h: "open_for_write example_env ?w (setup_path example_service) = None"
    by (simp add: example_env_def)
  have q: "''/tmp/x'' \<noteq> setup_path example_service" "fs ?w ''/tmp/x'' = None"
    by (simp_all add: setup_path_example world_with_def)
  from saveSetup_writes_in_place [OF h] obtain f1 where
    "saveSetup_states example_env example_service ?w
       = [fs ?w, f1, fs (snd (saveSetup example_env example_service ?w))]"
    and "map_option content (f1 (setup_path example_service)) = Some (Garbage [])"
    and "\<forall>p. p \<noteq> setup_path example_service \<longrightarrow>
            f1 p = fs ?w p \<and> fs (snd (saveSetup example_env example_service ?w)) p = fs ?w p"
    by blast
  with h q show ?thesis by simp
qed

text \<open>
  C4, as stated, fails: while \<open>saveSetup\<close> replaces a record on disk, there is a state in
  which the setup file holds neither the old record nor the new one but nothing at all,
  which does not unmarshal; the save itself succeeds.
\<close>

theorem saveSetup_empty_file_visible:
  "map_option content (fs (world_with (Some outdated_file)) ''/data/setup.json'')
     = Some (content outdated_file)
   \<and> fst (saveSetup example_env example_service (world_with (Some outdated_file))) = None
   \<and> ReadFile (fs (snd (saveSetup example_env example_service (world_with (Some outdated_file)))))
        ''/data/setup.json'' = Inr example_record
   \<and> ReadFile (saveSetup_states example_env example_service (world_with (Some outdated_file)) ! 1)
        ''/data/setup.json'' = Inr (Garbage [])
   \<and> Garbage [] \<noteq> content outdated_file
   \<and> Garbage [] \<noteq> example_record
   \<and> json_Unmarshal (Garbage []) zero_SetupConfigFile = Inl (Error ''invalid character'')"
  by (simp add: saveSetup_states_def saveSetup_def json_Marshal_def WriteFile_states_def
        WriteFile_def open_trunc_def write_data_def ReadFile_def setup_path_example
        world_with_def example_env_def outdated_file_def example_record_def)

section \<open>Waiting until the starter is gone\<close>

lemma failures_before_step:
  "(if q k then int (failures_before q k) + 1 else 0) = int (failures_before q (Suc k))"
  by simp

lemma loop_sound:
  assumes "WaitUntilStarterGone_loop q f k = Some n"
  shows "f = int (failures_before q k) \<longrightarrow>
         k < n \<and> 2 < failures_before q n \<and> (\<forall>m. k < m \<and> m < n \<longrightarrow> failures_before q m \<le> 2)"
  using assms
proof (rule WaitUntilStarterGone_loop.raw_induct [rotated 1], goal_cases)
  case (1 loop q f k n)
  show ?case
  proof
    assume f: "f = int (failures_before q k)"
    show "k < n \<and> 2 < failures_before q n \<and> (\<forall>m. k < m \<and> m < n \<longrightarrow> failures_before q m \<le> 2)"
    proof (cases "2 < failures_before q (Suc k)")
      case True
      with 1(2) f have "n = Suc k" by (auto simp: Let_def add.commute split: if_splits)
      with True show ?thesis by auto
    next
      case False
      with 1(2) f have "loop q (int (failures_before q (Suc k))) (Suc k) = Some n"
        by (auto simp: Let_def add.commute split: if_splits)
      from 1(1) [OF this] have
        *: "Suc k < n \<and> 2 < failures_before q n \<and> (\<forall>m. Suc k < m \<and> m < n \<longrightarrow> failures_before q m \<le> 2)"
        by simp
      have "\<And>m. k < m \<Longrightarrow> m < n \<Longrightarrow> failures_before q m \<le> 2"
      proof -
        fix m assume "k < m" "m < n"
        then consider "m = Suc k" | "Suc k < m" by linarith
        then show "failures_before q m \<le> 2"
          using False * \<open>m < n\<close> by cases auto
      qed
      with * show ?thesis by auto
    qed
  qed
qed

lemma loop_unfold:
  "WaitUntilStarterGone_loop q (int (failures_before q k)) k =
     (if 2 < failures_before q (Suc k) then Some (Suc k)
      else WaitUntilStarterGone_loop q (int (failures_before q (Suc k))) (Suc k))"
  by (subst WaitUntilStarterGone_loop.simps) (simp add: Let_def add.commute)

lemma loop_complete:
  "k < n \<Longrightarrow> 2 < failures_before q n \<Longrightarrow> (\<forall>m. k < m \<and> m < n \<longrightarrow> failures_before q m \<le> 2) \<Longrightarrow>
   WaitUntilStarterGone_loop q (int (failures_before q k)) k = Some n"
proof (induction "n - k" arbitrary: k)
  case 0
  then show ?case by simp
next
  case (Suc d)
  show ?case
  proof (cases "Suc k = n")
    case True
    with Suc.prems(2) have "2 < failures_before q (Suc k)" by simp
    with True show ?thesis by (subst loop_unfold) simp
  next
    case False
    with Suc.prems have lt: "Suc k < n" by simp
    from Suc.prems(3) lt have "failures_before q (Suc k) \<le> 2" by blast
    then have le: "\<not> 2 < failures_before q (Suc k)" by (simp only: not_less)
    from Suc.hyps lt have "d = n - Suc k" by simp
    from Suc.hyps(1) [OF this lt Suc.prems(2)] Suc.prems(3)
    have "WaitUntilStarterGone_loop q (int (failures_before q (Suc k))) (Suc k) = Some n"
      by simp
    with le show ?thesis by (subst loop_unfold) simp
  qed
qed

lemma three_failed_Suc:
  "three_failed q (Suc (Suc (Suc j))) = (q j \<and> q (Suc j) \<and> q (Suc (Suc j)))"
  by (simp add: three_failed_def numeral_3_eq_3 numeral_2_eq_2)

lemma three_failed_ge: "three_failed q n \<Longrightarrow> \<exists>j. n = Suc (Suc (Suc j))"
  by (auto simp: three_failed_def le_iff_add numeral_3_eq_3)

lemma three_failures: "(2 < failures_before q n) = three_failed q n"
proof (cases n)
  case 0
  then show ?thesis by (simp add: three_failed_def)
next
  case (Suc a)
  note n = this
  show ?thesis
  proof (cases a)
    case 0
    with n show ?thesis by (simp add: three_failed_def)
  next
    case (Suc b)
    note a = this
    show ?thesis
    proof (cases b)
      case 0
      with n a show ?thesis by (simp add: three_failed_def)
    next
      case (Suc j)
      with n a have "n = Suc (Suc (Suc j))" by simp
      then show ?thesis by (simp add: three_failed_Suc)
    qed
  qed
qed

lemma gone_iff_first:
  "(WaitUntilStarterGone q = Some n) =
     (three_failed q n \<and> (\<forall>m. m < n \<longrightarrow> \<not> three_failed q m))"
proof
  assume "WaitUntilStarterGone q = Some n"
  then have "WaitUntilStarterGone_loop q 0 0 = Some n"
    by (simp add: WaitUntilStarterGone_def)
  from loop_sound [OF this]
  have "2 < failures_before q n" and "\<forall>m. 0 < m \<and> m < n \<longrightarrow> failures_before q m \<le> 2"
    by simp_all
  then have a: "three_failed q n" and b: "\<forall>m. 0 < m \<and> m < n \<longrightarrow> \<not> three_failed q m"
    by (simp_all add: three_failures [symmetric] not_less)
  have "\<not> three_failed q m" if "m < n" for m
  proof (cases "m = 0")
    case True
    then show ?thesis by (simp add: three_failed_def)
  next
    case False
    with b that show ?thesis by simp
  qed
  with a show "three_failed q n \<and> (\<forall>m. m < n \<longrightarrow> \<not> three_failed q m)" by blast
next
  assume h: "three_failed q n \<and> (\<forall>m. m < n \<longrightarrow> \<not> three_failed q m)"
  then have "0 < n" by (auto dest: three_failed_ge)
  moreover from h have "2 < failures_before q n" by (simp add: three_failures)
  moreover from h have "\<forall>m. 0 < m \<and> m < n \<longrightarrow> failures_before q m \<le> 2"
    by (simp add: three_failures [symmetric] not_less)
  ultimately have "WaitUntilStarterGone_loop q (int (failures_before q 0)) 0 = Some n"
    by (rule loop_complete)
  then show "WaitUntilStarterGone q = Some n" by (simp add: WaitUntilStarterGone_def)
qed

lemma never_gone_iff:
  "(WaitUntilStarterGone q = None) = (\<forall>m. \<not> three_failed q m)"
proof
  assume none: "WaitUntilStarterGone q = None"
  show "\<forall>m. \<not> three_failed q m"
  proof (rule ccontr)
    assume "\<not> (\<forall>m. \<not> three_failed q m)"
    then have ex: "\<exists>m. three_failed q m" by blast
    define n where "n = (LEAST m. three_failed q m)"
    from ex have "three_failed q n" unfolding n_def by (rule LeastI_ex)
    moreover have "\<not> three_failed q m" if "m < n" for m
      using that unfolding n_def by (rule not_less_Least)
    ultimately have "WaitUntilStarterGone q = Some n" unfolding gone_iff_first by blast
    with none show False by simp
  qed
next
  assume no: "\<forall>m. \<not> three_failed q m"
  show "WaitUntilStarterGone q = None"
  proof (cases "WaitUntilStarterGone q")
    case None
    then show ?thesis .
  next
    case (Some n)
    then have "three_failed q n" unfolding gone_iff_first by blast
    with no show ?thesis by blast
  qed
qed

text \<open>
  C8.  \<open>WaitUntilStarterGone\<close> returns after \<open>n\<close> calls exactly when the last three of
  them failed and no three calls in a row failed before; so two failures followed by a
  success do not end it.  It never returns exactly when no three calls in a row ever
  fail.  A call that succeeds puts the counter back to zero, whatever it was.
\<close>

theorem WaitUntilStarterGone_three_failures:
  "(WaitUntilStarterGone q = Some n) =
     (three_failed q n \<and> (\<forall>m. m < n \<longrightarrow> \<not> three_failed q m))
   \<and> (WaitUntilStarterGone q = None) = (\<forall>m. \<not> three_failed q m)
   \<and> (\<not> q k \<longrightarrow>
        WaitUntilStarterGone_loop q f k = WaitUntilStarterGone_loop q 0 (Suc k))"
proof -
  have "WaitUntilStarterGone_loop q f k = WaitUntilStarterGone_loop q 0 (Suc k)" if "\<not> q k"
    using that by (subst WaitUntilStarterGone_loop.simps) simp
  with gone_iff_first [of q n] never_gone_iff [of q] show ?thesis by blast
qed

theorem WaitUntilStarterGone_three_failures_witness:
  "WaitUntilStarterGone (\<lambda>k. True) = Some 3
   \<and> WaitUntilStarterGone (\<lambda>k. k < 2) = None
   \<and> WaitUntilStarterGone (\<lambda>k. k \<noteq> 2) = Some 6
   \<and> WaitUntilStarterGone_loop (\<lambda>k. k \<noteq> 2) 2 2 = WaitUntilStarterGone_loop (\<lambda>k. k \<noteq> 2) 0 3"
proof -
  have 1: "WaitUntilStarterGone (\<lambda>k. True) = Some 3"
    using WaitUntilStarterGone_three_failures [of "\<lambda>k. True" 3]
    by (simp add: three_failed_def)
  have "\<not> three_failed (\<lambda>k. k < 2) m" for m
    by (auto simp: three_failed_def)
  then have 2: "WaitUntilStarterGone (\<lambda>k. k < 2) = None"
    using WaitUntilStarterGone_three_failures [of "\<lambda>k. k < 2"] by simp
  have "\<not> three_failed (\<lambda>k. k \<noteq> 2) m" if "m < 6" for m
    using that by (auto simp: three_failed_def)
  moreover have "three_failed (\<lambda>k. k \<noteq> 2) 6"
    by (simp add: three_failed_def)
  ultimately have 3: "WaitUntilStarterGone (\<lambda>k. k \<noteq> 2) = Some 6"
    using WaitUntilStarterGone_three_failures [of "\<lambda>k. k \<noteq> 2" 6] by simp
  have 4: "WaitUntilStarterGone_loop (\<lambda>k. k \<noteq> 2) 2 2
             = WaitUntilStarterGone_loop (\<lambda>k. k \<noteq> 2) 0 3"
    using WaitUntilStarterGone_three_failures [of "\<lambda>k. k \<noteq> 2" 0 2 2]
    by (simp add: numeral_3_eq_3)
  from 1 2 3 4 show ?thesis by simp
qed

end
